theory Spec2Isabelle
  imports Main "HOL-Library.Word" "HOL-Library.Sublist"
begin

section \<open>JavaScript strings and numbers\<close>

text \<open>
  A JavaScript string is a sequence of UTF-16 code units.
\<close>

type_synonym jschar = "16 word"
type_synonym jsstring = "jschar list"

definition ascii :: "string \<Rightarrow> jsstring" where
  "ascii s = map of_char s"

definition comma :: jschar where "comma = 0x2C"
definition newline :: jschar where "newline = 0x0A"
definition dquote :: jschar where "dquote = 0x22"

text \<open>\<open>xs.join(sep)\<close> on an array of strings.\<close>

fun jsJoin :: "'a list \<Rightarrow> 'a list list \<Rightarrow> 'a list" where
  "jsJoin sep [] = []"
| "jsJoin sep [x] = x"
| "jsJoin sep (x # y # ys) = x @ sep @ jsJoin sep (y # ys)"

text \<open>
  \<open>s.split(sep)\<close> for a string separator: the leftmost occurrences of \<open>sep\<close> cut
  the string; the empty separator cuts between all code units. The case
  \<open>[] \<Rightarrow> [[x]]\<close> is unreachable for a non-empty separator (lemma \<open>jsSplit_not_Nil\<close>).
\<close>

fun jsSplit :: "'a list \<Rightarrow> 'a list \<Rightarrow> 'a list list" where
  "jsSplit [] s = map (\<lambda>c. [c]) s"
| "jsSplit (p # ps) [] = [[]]"
| "jsSplit (p # ps) (x # xs) =
     (if prefix (p # ps) (x # xs) then [] # jsSplit (p # ps) (drop (length ps) xs)
      else (case jsSplit (p # ps) xs of
              [] \<Rightarrow> [[x]]
            | r # rs \<Rightarrow> (x # r) # rs))"

text \<open>\<open>s.replace(/"/g, '""')\<close>: every double quote is doubled.\<close>

definition escapeQuotes :: "jsstring \<Rightarrow> jsstring" where
  "escapeQuotes s = concat (map (\<lambda>c. if c = dquote then [dquote, dquote] else [c]) s)"

text \<open>The template literal \<open>`"${c.replace(/"/g,'""')}"`\<close>.\<close>

definition quoted :: "jsstring \<Rightarrow> jsstring" where
  "quoted c = [dquote] @ escapeQuotes c @ [dquote]"

text \<open>
  White space and line terminators, the code units \<open>trim()\<close> strips: TAB, LF, VT, FF,
  CR, SP, NBSP, U+1680, U+2000..U+200A, U+2028, U+2029, U+202F, U+205F, U+3000, U+FEFF.
\<close>

definition isSpace :: "jschar \<Rightarrow> bool" where
  "isSpace c = (c \<in> set [0x09, 0x0A, 0x0B, 0x0C, 0x0D, 0x20, 0xA0, 0x1680,
     0x2000, 0x2001, 0x2002, 0x2003, 0x2004, 0x2005, 0x2006, 0x2007, 0x2008, 0x2009, 0x200A,
     0x2028, 0x2029, 0x202F, 0x205F, 0x3000, 0xFEFF])"

definition trim :: "jsstring \<Rightarrow> jsstring" where
  "trim s = rev (dropWhile isSpace (rev (dropWhile isSpace s)))"

text \<open>
  Decimal rendering of a position in an array, as a template literal does for a
  non-negative integer below \<open>10\<^sup>2\<^sup>1\<close>, where every digit is printed; array
  lengths are below \<open>2\<^sup>3\<^sup>2\<close>.
\<close>

fun showNat :: "nat \<Rightarrow> jsstring" where
  "showNat n = (if n < 10 then [0x30 + of_nat n]
                else showNat (n div 10) @ [0x30 + of_nat (n mod 10)])"

declare showNat.simps [simp del]

subsection \<open>Numbers\<close>

text \<open>
  A level score is what \<open>parseInt\<close> returns or a constant of the program: a double
  whose value is an integer (\<open>Fin\<close>), an infinity, or \<open>NaN\<close>. The thresholds are sums
  and differences of such numbers, with the rounding of double arithmetic. The two zeros
  are one value here, and \<open>null\<close>, which the type of a score excludes, is not a score.
\<close>

datatype jsnum = Fin int | PosInfinity | NegInfinity | NaN

fun bitLength :: "nat \<Rightarrow> nat" where
  "bitLength n = (if n = 0 then 0 else Suc (bitLength (n div 2)))"

declare bitLength.simps [simp del]

text \<open>
  The double nearest to an integer: itself up to \<open>2\<^sup>5\<^sup>3\<close>; beyond, the 53 leading
  bits, rounded to nearest with ties to the even significand, and an infinity from
  \<open>2\<^sup>1\<^sup>0\<^sup>2\<^sup>4\<close> on.
\<close>

definition roundDouble :: "int \<Rightarrow> jsnum" where
  "roundDouble n =
     (if \<bar>n\<bar> \<le> 2 ^ 53 then Fin n
      else (let e = bitLength (nat \<bar>n\<bar>) - 53;
                m = \<bar>n\<bar> div 2 ^ e;
                r = \<bar>n\<bar> mod 2 ^ e;
                m' = (if 2 * r > 2 ^ e \<or> (2 * r = 2 ^ e \<and> odd m) then m + 1 else m);
                v = m' * 2 ^ e
            in if v \<ge> 2 ^ 1024 then (if n < 0 then NegInfinity else PosInfinity)
               else Fin (sgn n * v)))"

fun jsNeg :: "jsnum \<Rightarrow> jsnum" where
  "jsNeg (Fin a) = Fin (- a)"
| "jsNeg PosInfinity = NegInfinity"
| "jsNeg NegInfinity = PosInfinity"
| "jsNeg NaN = NaN"

text \<open>\<open>x + y\<close> on numbers.\<close>

fun jsAdd :: "jsnum \<Rightarrow> jsnum \<Rightarrow> jsnum" where
  "jsAdd (Fin a) (Fin b) = roundDouble (a + b)"
| "jsAdd NaN y = NaN"
| "jsAdd x NaN = NaN"
| "jsAdd PosInfinity NegInfinity = NaN"
| "jsAdd NegInfinity PosInfinity = NaN"
| "jsAdd PosInfinity y = PosInfinity"
| "jsAdd x PosInfinity = PosInfinity"
| "jsAdd NegInfinity y = NegInfinity"
| "jsAdd x NegInfinity = NegInfinity"

text \<open>\<open>x - y\<close> on numbers.\<close>

definition jsSub :: "jsnum \<Rightarrow> jsnum \<Rightarrow> jsnum" where
  "jsSub x y = jsAdd x (jsNeg y)"

text \<open>\<open>x <= y\<close> on numbers (and \<open>y >= x\<close>): false as soon as one side is \<open>NaN\<close>.\<close>

fun jsLe :: "jsnum \<Rightarrow> jsnum \<Rightarrow> bool" where
  "jsLe NaN y = False"
| "jsLe x NaN = False"
| "jsLe (Fin a) (Fin b) = (a \<le> b)"
| "jsLe NegInfinity y = True"
| "jsLe x PosInfinity = True"
| "jsLe x y = False"

section \<open>Data model (types.ts, constants.ts)\<close>

text \<open>
  The score of a student and of a grading result is modelled as an integer that is a
  double; a fraction returned by the model is outside this type.
\<close>

record level =
  l_label :: jsstring
  l_score :: jsnum
  l_criteria :: jsstring

record criterion =
  c_id :: jsstring
  c_focus :: jsstring
  c_levels :: "level list"

datatype status = Idle | Loading | Done | Error

record student =
  s_id :: jsstring
  s_name :: jsstring
  s_contents :: "jsstring list"
  s_feedback :: jsstring
  s_score :: "int option"
  s_levelLabel :: jsstring
  s_status :: status
  s_errorMsg :: "jsstring option"

record gradingResult =
  g_score :: int
  g_levelLabel :: jsstring
  g_feedback :: jsstring

record template =
  t_id :: jsstring
  t_name :: jsstring
  t_tasks :: "jsstring list"
  t_criteria :: "criterion list"
  t_timestamp :: nat

definition DEFAULT_LEVELS :: "level list" where
  "DEFAULT_LEVELS =
    [\<lparr>l_label = [0x8D85, 0x7D1A, 0x512A, 0x7570] @ ascii '' (Superb)'', l_score = Fin 100, l_criteria = []\<rparr>,
     \<lparr>l_label = [0x8868, 0x73FE, 0x826F, 0x597D] @ ascii '' (Good)'', l_score = Fin 89, l_criteria = []\<rparr>,
     \<lparr>l_label = [0x5DF2, 0x7D93, 0x505A, 0x5230] @ ascii '' (Done)'', l_score = Fin 79, l_criteria = []\<rparr>,
     \<lparr>l_label = [0x9084, 0x8981, 0x52A0, 0x6CB9] @ ascii '' (Developing)'', l_score = Fin 69, l_criteria = []\<rparr>,
     \<lparr>l_label = [0x52AA, 0x529B, 0x6539, 0x9032] @ ascii '' (Beginning)'', l_score = Fin 59, l_criteria = []\<rparr>]"

text \<open>Exceptions of the program, as values.\<close>

datatype error = TypeError | SyntaxError | JsError string | ApiFailure

section \<open>Score thresholds (App.tsx, totalScoreThresholds and getLevelLabelFromScore)\<close>

record threshold =
  th_label :: jsstring
  th_floor :: jsnum
  th_ceiling :: jsnum

text \<open>
  \<open>rawFloors[lIdx] += lowerBound\<close>. A write one past the end extends the array with
  \<open>undefined + lowerBound\<close>, which is \<open>NaN\<close>.
\<close>

definition addAt :: "jsnum list \<Rightarrow> nat \<Rightarrow> jsnum \<Rightarrow> jsnum list" where
  "addAt rawFloors lIdx lowerBound =
     (if lIdx < length rawFloors then rawFloors[lIdx := jsAdd (rawFloors ! lIdx) lowerBound]
      else rawFloors @ [NaN])"

text \<open>
  The inner \<open>c.levels.forEach((lvl, lIdx) => ...)\<close>, over the indices of the levels.
  Reading \<open>c.levels[lIdx + 1].score\<close> past the end is a TypeError.
\<close>

fun levelsForEach :: "level list \<Rightarrow> nat list \<Rightarrow> jsnum list \<Rightarrow> error + jsnum list" where
  "levelsForEach lvls [] rawFloors = Inr rawFloors"
| "levelsForEach lvls (lIdx # rest) rawFloors =
     (if lIdx < 4 then
        (if lIdx + 1 < length lvls
         then levelsForEach lvls rest
                (addAt rawFloors lIdx (jsAdd (l_score (lvls ! (lIdx + 1))) (Fin 1)))
         else Inl TypeError)
      else levelsForEach lvls rest (addAt rawFloors lIdx (Fin 0)))"

text \<open>The outer \<open>criteria.forEach\<close>; \<open>c.levels[0].score\<close> of an empty list is a TypeError.\<close>

fun criteriaForEach :: "criterion list \<Rightarrow> jsnum list \<times> jsnum \<Rightarrow> error + jsnum list \<times> jsnum" where
  "criteriaForEach [] acc = Inr acc"
| "criteriaForEach (c # cs) (rawFloors, maxPossibleScore) =
     (case c_levels c of
        [] \<Rightarrow> Inl TypeError
      | lvl0 # _ \<Rightarrow>
          (case levelsForEach (c_levels c) [0 ..< length (c_levels c)] rawFloors of
             Inl e \<Rightarrow> Inl e
           | Inr rawFloors' \<Rightarrow>
               criteriaForEach cs (rawFloors', jsAdd maxPossibleScore (l_score lvl0))))"

fun mapE :: "('a \<Rightarrow> error + 'b) \<Rightarrow> 'a list \<Rightarrow> error + 'b list" where
  "mapE f [] = Inr []"
| "mapE f (x # xs) =
     (case f x of
        Inl e \<Rightarrow> Inl e
      | Inr y \<Rightarrow> (case mapE f xs of Inl e \<Rightarrow> Inl e | Inr ys \<Rightarrow> Inr (y # ys)))"

text \<open>
  The callback of the final \<open>rawFloors.map\<close>. \<open>DEFAULT_LEVELS[i].label\<close> is a TypeError
  for \<open>i\<close> past the five default levels; \<open>split(' (')[0]\<close> is the first piece.
\<close>

definition thresholdAt :: "jsnum list \<Rightarrow> jsnum \<Rightarrow> nat \<Rightarrow> error + threshold" where
  "thresholdAt rawFloors maxPossibleScore i =
     (if i < length DEFAULT_LEVELS then
        Inr \<lparr>th_label = (case jsSplit (ascii '' ('') (l_label (DEFAULT_LEVELS ! i)) of
                            [] \<Rightarrow> [] | piece # _ \<Rightarrow> piece),
             th_floor = rawFloors ! i,
             th_ceiling = (if i = 0 then maxPossibleScore
                           else jsSub (rawFloors ! (i - 1)) (Fin 1))\<rparr>
      else Inl TypeError)"

definition totalScoreThresholds :: "criterion list \<Rightarrow> error + threshold list" where
  "totalScoreThresholds criteria =
     (case criteriaForEach criteria ([Fin 0, Fin 0, Fin 0, Fin 0, Fin 0], Fin 0) of
        Inl e \<Rightarrow> Inl e
      | Inr (rawFloors, maxPossibleScore) \<Rightarrow>
          mapE (thresholdAt rawFloors maxPossibleScore) [0 ..< length rawFloors])"

definition UNDETERMINED :: jsstring where
  "UNDETERMINED = [0x672A, 0x5224, 0x5B9A]"

text \<open>\<open>score >= t.floor && score <= t.ceiling\<close>, on the thresholds of the render.\<close>

definition getLevelLabelFromScore :: "threshold list \<Rightarrow> int \<Rightarrow> jsstring" where
  "getLevelLabelFromScore thresholds score =
     (case find (\<lambda>t. jsLe (th_floor t) (Fin score) \<and> jsLe (Fin score) (th_ceiling t))
             thresholds of
        Some t \<Rightarrow> th_label t
      | None \<Rightarrow> UNDETERMINED)"

text \<open>
  \<open>getLevelLabelFromScore\<close> as the component has it, on the thresholds that the render
  derives from the criteria; a render that throws has no classification.
\<close>

definition classifyScore :: "criterion list \<Rightarrow> int \<Rightarrow> error + jsstring" where
  "classifyScore criteria score =
     (case totalScoreThresholds criteria of
        Inl e \<Rightarrow> Inl e
      | Inr thresholds \<Rightarrow> Inr (getLevelLabelFromScore thresholds score))"

definition newCriterion :: "jsstring \<Rightarrow> criterion" where
  "newCriterion uuid = \<lparr>c_id = uuid, c_focus = [], c_levels = DEFAULT_LEVELS\<rparr>"

subsection \<open>The derivation in the words of the specification\<close>

text \<open>
  The integer a finite score stands for, and the floor of a level within one criterion,
  in exact arithmetic: the next-lower level's score plus one, and zero for the bottom
  level (the fifth).
\<close>

definition scoreOf :: "level \<Rightarrow> int" where
  "scoreOf l = (case l_score l of Fin i \<Rightarrow> i | _ \<Rightarrow> 0)"

definition levelFloorSpec :: "criterion \<Rightarrow> nat \<Rightarrow> int" where
  "levelFloorSpec c i = (if i = 4 then 0 else scoreOf (c_levels c ! (i + 1)) + 1)"

definition floorVectorSpec :: "criterion list \<Rightarrow> int list" where
  "floorVectorSpec criteria = map (\<lambda>i. \<Sum>c\<leftarrow>criteria. levelFloorSpec c i) [0 ..< 5]"

definition topScoreSumSpec :: "criterion list \<Rightarrow> int" where
  "topScoreSumSpec criteria = (\<Sum>c\<leftarrow>criteria. scoreOf (c_levels c ! 0))"

definition brackets :: "threshold \<Rightarrow> int \<Rightarrow> bool" where
  "brackets t score = (jsLe (th_floor t) (Fin score) \<and> jsLe (Fin score) (th_ceiling t))"

definition SHORT_LABELS :: "jsstring list" where
  "SHORT_LABELS = [[0x8D85, 0x7D1A, 0x512A, 0x7570], [0x8868, 0x73FE, 0x826F, 0x597D],
     [0x5DF2, 0x7D93, 0x505A, 0x5230], [0x9084, 0x8981, 0x52A0, 0x6CB9],
     [0x52AA, 0x529B, 0x6539, 0x9032]]"

definition thresholdsSpec :: "criterion list \<Rightarrow> threshold list" where
  "thresholdsSpec criteria =
     map (\<lambda>i. \<lparr>th_label = SHORT_LABELS ! i, th_floor = Fin (floorVectorSpec criteria ! i),
               th_ceiling = Fin (if i = 0 then topScoreSumSpec criteria
                                 else floorVectorSpec criteria ! (i - 1) - 1)\<rparr>) [0 ..< 5]"

text \<open>
  The scores on which double arithmetic is exact: every score is a finite integer, and
  the magnitudes of all scores, plus one for each level, total less than \<open>2\<^sup>5\<^sup>3\<close>.
\<close>

definition finiteScore :: "level \<Rightarrow> bool" where
  "finiteScore l = (case l_score l of Fin i \<Rightarrow> True | _ \<Rightarrow> False)"

definition weight :: "criterion \<Rightarrow> int" where
  "weight c = (\<Sum>l\<leftarrow>c_levels c. \<bar>scoreOf l\<bar> + 1)"

definition safeScores :: "criterion list \<Rightarrow> bool" where
  "safeScores criteria =
     (list_all (\<lambda>c. list_all finiteScore (c_levels c)) criteria
      \<and> (\<Sum>c\<leftarrow>criteria. weight c) < 2 ^ 53)"

subsection \<open>Two criteria, for instances of the theorems\<close>

text \<open>A criterion with the scores 50, 40, 30, 20, 10, and one whose second score is \<open>2\<^sup>5\<^sup>3\<close>.\<close>

definition scored :: "jsstring \<Rightarrow> jsnum list \<Rightarrow> criterion" where
  "scored uuid scores =
     \<lparr>c_id = uuid, c_focus = [],
      c_levels = map (\<lambda>(l, v). l\<lparr>l_score := v\<rparr>) (zip DEFAULT_LEVELS scores)\<rparr>"

definition demoCriterion :: criterion where
  "demoCriterion = scored (ascii ''c2'') [Fin 50, Fin 40, Fin 30, Fin 20, Fin 10]"

definition bigCriterion :: criterion where
  "bigCriterion = scored (ascii ''c3'') [Fin 100, Fin 9007199254740992, Fin 79, Fin 69, Fin 59]"

section \<open>Application state (App.tsx, the component's state hooks)\<close>

text \<open>
  The \<open>useState\<close> cells of the component that the handlers below read or write
  (the quote carousel and the report dialogue are left out), the one local-storage slot
  \<open>sailor_grading_templates\<close> the component reads and writes, and a log of the students
  passed to \<open>evaluateStudentWork\<close>, in call order.
\<close>

record app =
  a_tasks :: "jsstring list"
  a_criteria :: "criterion list"
  a_students :: "student list"
  a_isEvaluating :: bool
  a_evaluatingProgress :: "nat \<times> nat"
  a_errorToast :: "jsstring option"
  a_templates :: "template list"
  a_selectedTemplateId :: jsstring
  a_showTemplateModal :: bool
  a_showSaveModal :: bool
  a_saveNameInput :: jsstring
  a_storage :: "jsstring option"
  a_apiCalls :: "student list"

section \<open>Batch grading (App.tsx, startBatchGrading)\<close>

text \<open>
  The outcome of the \<open>n\<close>-th call \<open>await evaluateStudentWork(s, tasks, criteria)\<close>:
  a grading result, or any exception (network, rate limit, malformed response).
\<close>

type_synonym evaluator = "nat \<Rightarrow> student \<Rightarrow> error + gradingResult"

definition ENERGY_ERROR :: jsstring where
  "ENERGY_ERROR = [0x80FD, 0x91CF, 0x4E2D, 0x65B7] @ ascii '' (API '' @
     [0x983B, 0x7387, 0x9650, 0x5236] @ ascii '')''"

definition PAUSED_TOAST :: jsstring where
  "PAUSED_TOAST = [0x6708, 0x4EAE, 0x80FD, 0x91CF, 0x4E0D, 0x8DB3, 0xFF08] @ ascii ''API '' @
     [0x983B, 0x7387, 0x9650, 0x5236, 0xFF09, 0xFF0C, 0x8A55, 0x5206, 0x5DF2, 0x66AB, 0x505C,
      0x3002]"

text \<open>The three \<open>setStudents(prev => prev.map(st => st.id === s.id ? {...} : st))\<close>.\<close>

definition markLoading :: "student \<Rightarrow> student list \<Rightarrow> student list" where
  "markLoading s prev = map (\<lambda>st. if s_id st = s_id s then st\<lparr>s_status := Loading\<rparr> else st) prev"

definition markDone :: "student \<Rightarrow> gradingResult \<Rightarrow> jsstring \<Rightarrow> student list \<Rightarrow> student list" where
  "markDone s res autoDetectedLabel prev =
     map (\<lambda>st. if s_id st = s_id s
               then st\<lparr>s_status := Done, s_score := Some (g_score res),
                       s_levelLabel := autoDetectedLabel, s_feedback := g_feedback res\<rparr>
               else st) prev"

definition markError :: "student \<Rightarrow> student list \<Rightarrow> student list" where
  "markError s prev =
     map (\<lambda>st. if s_id st = s_id s
               then st\<lparr>s_status := Error, s_errorMsg := Some ENERGY_ERROR\<rparr>
               else st) prev"

text \<open>
  One iteration of the loop, for the target \<open>s\<close> at index \<open>i\<close>. \<open>ths\<close> is the memoised
  \<open>totalScoreThresholds\<close> of the render the handler belongs to. The pause of four seconds
  after a success is not modelled.
\<close>

definition gradeOne :: "evaluator \<Rightarrow> threshold list \<Rightarrow> nat \<Rightarrow> student \<Rightarrow> app \<Rightarrow> app" where
  "gradeOne ev ths i s a =
     (let a1 = a\<lparr>a_evaluatingProgress := (i + 1, snd (a_evaluatingProgress a)),
                 a_students := markLoading s (a_students a),
                 a_apiCalls := a_apiCalls a @ [s]\<rparr>
      in case ev i s of
           Inr res \<Rightarrow>
             a1\<lparr>a_students :=
                  markDone s res (getLevelLabelFromScore ths (g_score res)) (a_students a1)\<rparr>
         | Inl e \<Rightarrow>
             a1\<lparr>a_students := markError s (a_students a1),
                a_errorToast := Some PAUSED_TOAST\<rparr>)"

fun gradeLoop :: "evaluator \<Rightarrow> threshold list \<Rightarrow> nat \<Rightarrow> student list \<Rightarrow> app \<Rightarrow> app" where
  "gradeLoop ev ths i [] a = a"
| "gradeLoop ev ths i (s # targets) a = gradeLoop ev ths (i + 1) targets (gradeOne ev ths i s a)"

text \<open>\<open>s.status !== 'done' && s.contents.some(c => c.trim() !== "")\<close>.\<close>

definition isTarget :: "student \<Rightarrow> bool" where
  "isTarget s = (s_status s \<noteq> Done \<and> list_ex (\<lambda>c. trim c \<noteq> []) (s_contents s))"

definition startBatchGrading :: "evaluator \<Rightarrow> threshold list \<Rightarrow> app \<Rightarrow> app" where
  "startBatchGrading ev ths a =
     (let targets = filter isTarget (a_students a) in
      if length targets = 0 then a
      else (gradeLoop ev ths 0 targets
              (a\<lparr>a_isEvaluating := True, a_evaluatingProgress := (0, length targets)\<rparr>))
           \<lparr>a_isEvaluating := False\<rparr>)"

subsection \<open>What one target does to one student record\<close>

definition stepStudent :: "evaluator \<Rightarrow> threshold list \<Rightarrow> nat \<Rightarrow> student \<Rightarrow> student \<Rightarrow> student" where
  "stepStudent ev ths i s st =
     (case ev i s of
        Inr res \<Rightarrow> st\<lparr>s_status := Done, s_score := Some (g_score res),
                      s_levelLabel := getLevelLabelFromScore ths (g_score res),
                      s_feedback := g_feedback res\<rparr>
      | Inl e \<Rightarrow> st\<lparr>s_status := Error, s_errorMsg := Some ENERGY_ERROR\<rparr>)"

fun applyTargets :: "evaluator \<Rightarrow> threshold list \<Rightarrow> nat \<Rightarrow> student list \<Rightarrow> student \<Rightarrow> student" where
  "applyTargets ev ths i [] st = st"
| "applyTargets ev ths i (t # ts) st =
     applyTargets ev ths (i + 1) ts (if s_id st = s_id t then stepStudent ev ths i t st else st)"

section \<open>Handlers on the student table (App.tsx)\<close>

text \<open>
  The state of the component at mount, before its effects run: one empty task, one
  criterion with the default levels, no student; \<open>stored\<close> is what the local-storage
  slot holds.
\<close>

definition initialApp :: "jsstring \<Rightarrow> jsstring option \<Rightarrow> app" where
  "initialApp uuid stored =
     \<lparr>a_tasks = [[]], a_criteria = [newCriterion uuid], a_students = [],
      a_isEvaluating = False, a_evaluatingProgress = (0, 0), a_errorToast = None,
      a_templates = [], a_selectedTemplateId = [], a_showTemplateModal = False,
      a_showSaveModal = False, a_saveNameInput = [], a_storage = stored, a_apiCalls = []\<rparr>"

text \<open>The add-student button: a student named by its position, with one empty answer per task.\<close>

definition addStudent :: "jsstring \<Rightarrow> app \<Rightarrow> app" where
  "addStudent uuid a =
     a\<lparr>a_students := a_students a @
         [\<lparr>s_id = uuid, s_name = [0x5B78, 0x751F, 0x20] @ showNat (length (a_students a) + 1),
           s_contents = replicate (length (a_tasks a)) [], s_feedback = [], s_score = None,
           s_levelLabel = [], s_status = Idle, s_errorMsg = None\<rparr>]\<rparr>"

subsection \<open>A small class, for instances of the theorems\<close>

definition demoStudent :: "string \<Rightarrow> string \<Rightarrow> student" where
  "demoStudent i answer =
     \<lparr>s_id = ascii i, s_name = ascii i, s_contents = [ascii answer], s_feedback = [],
      s_score = None, s_levelLabel = [], s_status = Idle, s_errorMsg = None\<rparr>"

definition demoApp :: app where
  "demoApp = (initialApp (ascii ''c1'') None)
     \<lparr>a_students := [demoStudent ''s1'' ''x'', demoStudent ''s2'' '' '', demoStudent ''s3'' ''y'']\<rparr>"

definition demoEvaluator :: evaluator where
  "demoEvaluator i s =
     (if i = 0 then Inl ApiFailure
      else Inr \<lparr>g_score = 85, g_levelLabel = ascii ''AI'', g_feedback = ascii ''ok''\<rparr>)"

text \<open>The evaluator \<open>ev\<close> with the \<open>levelLabel\<close> of every result replaced.\<close>

definition relabelled :: "(nat \<Rightarrow> student \<Rightarrow> jsstring) \<Rightarrow> evaluator \<Rightarrow> evaluator" where
  "relabelled l ev i s =
     (case ev i s of Inl e \<Rightarrow> Inl e | Inr res \<Rightarrow> Inr (res\<lparr>g_levelLabel := l i s\<rparr>))"

section \<open>The structured AI calls (services/geminiService.ts)\<close>

text \<open>A value of \<open>JSON.parse\<close>.\<close>

datatype json =
    JNull
  | JBool bool
  | JNumber int
  | JString jsstring
  | JArray "json list"
  | JObject "(jsstring \<times> json) list"

fun isArray :: "json \<Rightarrow> bool" where
  "isArray (JArray xs) = True"
| "isArray v = False"

text \<open>
  What the environment answers to one call: \<open>await ai.models.generateContent(...)\<close>
  throws (\<open>Inl\<close>), or gives a response whose \<open>text\<close> is a string or \<open>undefined\<close>
  (\<open>None\<close>). \<open>JSON_parse\<close> stands for the built-in \<open>JSON.parse\<close>: a value, or the
  SyntaxError it throws.
\<close>

type_synonym response = "error + jsstring option"
type_synonym parser = "jsstring \<Rightarrow> error + json"

text \<open>
  The \<open>try\<close> block of \<open>generateRubricCriteria\<close>; its \<open>catch\<close> logs and throws the
  same exception again.
\<close>

definition generateRubricCriteria :: "parser \<Rightarrow> response \<Rightarrow> error + json" where
  "generateRubricCriteria JSON_parse response =
     (case response of
        Inl e \<Rightarrow> Inl e
      | Inr None \<Rightarrow> Inl (JsError ''AI returned empty response'')
      | Inr (Some text) \<Rightarrow>
          (if text = [] then Inl (JsError ''AI returned empty response'')
           else (case JSON_parse text of
                   Inl e \<Rightarrow> Inl e
                 | Inr data \<Rightarrow> Inr (if isArray data then data else JArray []))))"

text \<open>The \<open>try\<close> block of \<open>evaluateStudentWork\<close>; the parsed value is returned as it is.\<close>

definition evaluateStudentWork :: "parser \<Rightarrow> response \<Rightarrow> error + json" where
  "evaluateStudentWork JSON_parse response =
     (case response of
        Inl e \<Rightarrow> Inl e
      | Inr None \<Rightarrow> Inl (JsError ''Empty AI response'')
      | Inr (Some text) \<Rightarrow>
          (if text = [] then Inl (JsError ''Empty AI response'')
           else (case JSON_parse text of
                   Inl e \<Rightarrow> Inl e
                 | Inr data \<Rightarrow> Inr data)))"

text \<open>
  \<open>JSON.parse\<close> on the two texts used in the instances below: \<open>[]\<close> is the empty array,
  \<open>{}\<close> the empty object, and a text that is no JSON is a SyntaxError.
\<close>

definition demoParse :: parser where
  "demoParse t =
     (if t = ascii ''[]'' then Inr (JArray [])
      else if t = ascii ''{}'' then Inr (JObject [])
      else Inl SyntaxError)"

section \<open>Templates, criteria and local storage (App.tsx, effects and handlers)\<close>

text \<open>
  \<open>JSON.parse\<close> on the slot, typed as the program types it (a list of templates; \<open>None\<close>
  is the SyntaxError the program swallows), and \<open>JSON.stringify\<close> on a list of templates.
\<close>

type_synonym templateParser = "jsstring \<Rightarrow> template list option"
type_synonym templateWriter = "template list \<Rightarrow> jsstring"

text \<open>The effect on \<open>[templates]\<close>: \<open>localStorage.setItem(key, JSON.stringify(templates))\<close>.\<close>

definition persistTemplates :: "templateWriter \<Rightarrow> app \<Rightarrow> app" where
  "persistTemplates JSON_stringify a = a\<lparr>a_storage := Some (JSON_stringify (a_templates a))\<rparr>"

text \<open>
  Mounting the component. The first effect reads the slot and, when it holds a non-empty
  string that parses, queues \<open>setTemplates\<close>; the second effect then stores the
  templates of the first render; the queued update renders again and the second effect
  runs on the loaded templates.
\<close>

definition mount :: "templateParser \<Rightarrow> templateWriter \<Rightarrow> app \<Rightarrow> app" where
  "mount JSON_parse JSON_stringify a =
     (let loaded = (case a_storage a of
                      None \<Rightarrow> None
                    | Some saved \<Rightarrow> if saved = [] then None else JSON_parse saved);
          a1 = persistTemplates JSON_stringify a
      in case loaded of
           None \<Rightarrow> a1
         | Some ts \<Rightarrow> persistTemplates JSON_stringify (a1\<lparr>a_templates := ts\<rparr>))"

text \<open>
  The handlers that write into a criterion do so in place, on an object that templates
  saved earlier in the session still hold (the save handler stores the criteria list
  itself). \<open>shared\<close> lists the positions (template, criterion) that hold the object
  written to; the write reaches each of them.
\<close>

definition writeShared :: "(criterion \<Rightarrow> criterion) \<Rightarrow> nat \<times> nat \<Rightarrow> template list \<Rightarrow> template list" where
  "writeShared f pos ts =
     (case pos of (ti, ci) \<Rightarrow>
        if ti < length ts \<and> ci < length (t_criteria (ts ! ti))
        then ts[ti := (ts ! ti)\<lparr>t_criteria :=
                        (t_criteria (ts ! ti))[ci := f (t_criteria (ts ! ti) ! ci)]\<rparr>]
        else ts)"

definition writeCriterion :: "nat \<Rightarrow> (criterion \<Rightarrow> criterion) \<Rightarrow> (nat \<times> nat) list \<Rightarrow> app \<Rightarrow> app" where
  "writeCriterion cIdx f shared a =
     (if cIdx < length (a_criteria a)
      then a\<lparr>a_criteria := (a_criteria a)[cIdx := f (a_criteria a ! cIdx)],
             a_templates := foldr (writeShared f) shared (a_templates a)\<rparr>
      else a)"

definition writeLevel :: "nat \<Rightarrow> (level \<Rightarrow> level) \<Rightarrow> criterion \<Rightarrow> criterion" where
  "writeLevel lIdx g c =
     (if lIdx < length (c_levels c)
      then c\<lparr>c_levels := (c_levels c)[lIdx := g (c_levels c ! lIdx)]\<rparr>
      else c)"

text \<open>
  \<open>res.forEach((text, i) => { if (n[cIdx].levels[i]) n[cIdx].levels[i].criteria = text; })\<close>
\<close>

fun applyTexts :: "jsstring list \<Rightarrow> level list \<Rightarrow> level list" where
  "applyTexts [] lvls = lvls"
| "applyTexts (text # res) [] = []"
| "applyTexts (text # res) (lvl # lvls) = lvl\<lparr>l_criteria := text\<rparr> # applyTexts res lvls"

datatype event =
    SelectTemplate jsstring jsstring
  | AddCriterion jsstring
  | RemoveCriterion jsstring
  | EditFocus nat jsstring "(nat \<times> nat) list"
  | EditScore nat nat jsnum "(nat \<times> nat) list"
  | EditLevelCriteria nat nat jsstring "(nat \<times> nat) list"
  | ApplyRubric nat "jsstring list" "(nat \<times> nat) list"
  | ReadTemplate nat
  | SaveTemplate jsstring nat
  | DeleteTemplate jsstring

text \<open>
  The handlers, each with the effect on \<open>[templates]\<close> when it sets the templates.
  \<open>SelectTemplate v uuid\<close> is the drop-down (\<open>uuid\<close> is the id drawn for the fresh
  criterion), \<open>ReadTemplate ti\<close> the read button of row \<open>ti\<close> of the library,
  \<open>SaveTemplate uuid now\<close> the confirm button of the save dialogue, \<open>ApplyRubric\<close> the
  generate button once \<open>generateRubricCriteria\<close> has returned \<open>res\<close>. A handler on a row
  that does not exist leaves the state as it is.
\<close>

fun handle :: "templateWriter \<Rightarrow> event \<Rightarrow> app \<Rightarrow> app" where
  "handle W (SelectTemplate v uuid) a =
     (if v = [] then a\<lparr>a_tasks := [[]], a_criteria := [newCriterion uuid], a_selectedTemplateId := []\<rparr>
      else (case find (\<lambda>x. t_id x = v) (a_templates a) of
              None \<Rightarrow> a
            | Some t \<Rightarrow> a\<lparr>a_tasks := t_tasks t, a_criteria := t_criteria t,
                           a_selectedTemplateId := v\<rparr>))"
| "handle W (AddCriterion uuid) a = a\<lparr>a_criteria := a_criteria a @ [newCriterion uuid]\<rparr>"
| "handle W (RemoveCriterion cid) a = a\<lparr>a_criteria := filter (\<lambda>c. c_id c \<noteq> cid) (a_criteria a)\<rparr>"
| "handle W (EditFocus cIdx v shared) a = writeCriterion cIdx (\<lambda>c. c\<lparr>c_focus := v\<rparr>) shared a"
| "handle W (EditScore cIdx lIdx v shared) a =
     writeCriterion cIdx (writeLevel lIdx (\<lambda>l. l\<lparr>l_score := v\<rparr>)) shared a"
| "handle W (EditLevelCriteria cIdx lIdx v shared) a =
     writeCriterion cIdx (writeLevel lIdx (\<lambda>l. l\<lparr>l_criteria := v\<rparr>)) shared a"
| "handle W (ApplyRubric cIdx res shared) a =
     writeCriterion cIdx (\<lambda>c. c\<lparr>c_levels := applyTexts res (c_levels c)\<rparr>) shared a"
| "handle W (ReadTemplate ti) a =
     (if ti < length (a_templates a)
      then a\<lparr>a_tasks := t_tasks (a_templates a ! ti), a_criteria := t_criteria (a_templates a ! ti),
             a_showTemplateModal := False, a_selectedTemplateId := t_id (a_templates a ! ti)\<rparr>
      else a)"
| "handle W (SaveTemplate uuid now) a =
     persistTemplates W
       (a\<lparr>a_templates := \<lparr>t_id = uuid, t_name = a_saveNameInput a, t_tasks = a_tasks a,
                            t_criteria = a_criteria a, t_timestamp = now\<rparr> # a_templates a,
          a_showSaveModal := False, a_saveNameInput := [], a_selectedTemplateId := uuid\<rparr>)"
| "handle W (DeleteTemplate tid) a =
     persistTemplates W
       (a\<lparr>a_templates := filter (\<lambda>x. t_id x \<noteq> tid) (a_templates a),
          a_selectedTemplateId := (if a_selectedTemplateId a = tid then [] else a_selectedTemplateId a)\<rparr>)"

fun run :: "templateWriter \<Rightarrow> event list \<Rightarrow> app \<Rightarrow> app" where
  "run W [] a = a"
| "run W (e # es) a = run W es (handle W e a)"

text \<open>The events that write into an existing criterion.\<close>

fun isWrite :: "event \<Rightarrow> bool" where
  "isWrite (EditFocus cIdx v shared) = True"
| "isWrite (EditScore cIdx lIdx v shared) = True"
| "isWrite (EditLevelCriteria cIdx lIdx v shared) = True"
| "isWrite (ApplyRubric cIdx res shared) = True"
| "isWrite e = False"

text \<open>The events that write into a criterion which some template holds as well.\<close>

fun writesShared :: "event \<Rightarrow> bool" where
  "writesShared (EditFocus cIdx v shared) = (shared \<noteq> [])"
| "writesShared (EditScore cIdx lIdx v shared) = (shared \<noteq> [])"
| "writesShared (EditLevelCriteria cIdx lIdx v shared) = (shared \<noteq> [])"
| "writesShared (ApplyRubric cIdx res shared) = (shared \<noteq> [])"
| "writesShared e = False"

definition fiveLevels :: "criterion \<Rightarrow> bool" where
  "fiveLevels c = (length (c_levels c) = 5)"

definition templatesFiveLevels :: "template list \<Rightarrow> bool" where
  "templatesFiveLevels ts = list_all (\<lambda>t. list_all fiveLevels (t_criteria t)) ts"

definition fiveLevelsEverywhere :: "app \<Rightarrow> bool" where
  "fiveLevelsEverywhere a = (list_all fiveLevels (a_criteria a) \<and> templatesFiveLevels (a_templates a))"

text \<open>The number of levels of every criterion of the state, by position.\<close>

definition levelCounts :: "app \<Rightarrow> nat list \<times> nat list list" where
  "levelCounts a =
     (map (\<lambda>c. length (c_levels c)) (a_criteria a),
      map (\<lambda>t. map (\<lambda>c. length (c_levels c)) (t_criteria t)) (a_templates a))"

text \<open>A stored template and a session, for instances of the theorems.\<close>

definition demoTemplate :: template where
  "demoTemplate = \<lparr>t_id = ascii ''t0'', t_name = ascii ''old'', t_tasks = [[]],
     t_criteria = [newCriterion (ascii ''c0'')], t_timestamp = 0\<rparr>"

definition demoSession :: "event list" where
  "demoSession =
     [AddCriterion (ascii ''c2''), EditScore 0 0 (Fin 50) [], SaveTemplate (ascii ''t1'') 1,
      ApplyRubric 1 [ascii ''a'', ascii ''b''] [(0, 1)], ReadTemplate 1,
      RemoveCriterion (ascii ''c0'')]"

section \<open>CSV export and import (App.tsx, the two handlers of the student table)\<close>

definition BOM :: jschar where "BOM = 0xFEFF"

text \<open>
  \<open>join\<close> renders the score \<open>null\<close> as the empty string and a number as
  \<open>numberToString\<close> does, which stands for the conversion built into the language.
\<close>

definition showScore :: "(int \<Rightarrow> jsstring) \<Rightarrow> int option \<Rightarrow> jsstring" where
  "showScore numberToString sc = (case sc of None \<Rightarrow> [] | Some n \<Rightarrow> numberToString n)"

definition csvHeader :: "jsstring list \<Rightarrow> jsstring" where
  "csvHeader tasks =
     jsJoin [comma] ([[0x59D3, 0x540D]] @ map (\<lambda>i. 0x984C # showNat (i + 1)) [0 ..< length tasks]
       @ [[0x5F97, 0x5206], [0x7B49, 0x7D1A], [0x8A55, 0x8A9E]])"

definition csvRow :: "(int \<Rightarrow> jsstring) \<Rightarrow> student \<Rightarrow> jsstring" where
  "csvRow numberToString s =
     jsJoin [comma] ([s_name s] @ map quoted (s_contents s)
       @ [showScore numberToString (s_score s), s_levelLabel s, quoted (s_feedback s)])"

text \<open>
  The text of the exported file: the byte order mark, the header, a line feed, the rows.
  Writing the text to a file and reading it back is taken as the identity; a reader that
  drops the byte order mark changes the header row only, which the import skips.
\<close>

definition exportCsv :: "(int \<Rightarrow> jsstring) \<Rightarrow> jsstring list \<Rightarrow> student list \<Rightarrow> jsstring" where
  "exportCsv numberToString tasks students =
     [BOM] @ csvHeader tasks @ [newline]
       @ jsJoin [newline] (map (csvRow numberToString) students)"

text \<open>\<open>r[i] || ""\<close>: a missing or empty cell is the empty string.\<close>

definition cell :: "jsstring list \<Rightarrow> nat \<Rightarrow> jsstring" where
  "cell r i = (if i < length r then r ! i else [])"

text \<open>
  One imported row. \<open>split\<close> never gives an empty array (lemma \<open>jsSplit_not_Nil\<close>), so
  \<open>r[0]\<close> is always a string and the case \<open>[]\<close> is unreachable.
\<close>

definition importRow :: "jsstring list \<Rightarrow> jsstring \<Rightarrow> jsstring list \<Rightarrow> student" where
  "importRow tasks uuid r =
     \<lparr>s_id = uuid, s_name = (case r of [] \<Rightarrow> [] | r0 # _ \<Rightarrow> r0),
      s_contents = map (\<lambda>i. cell r (i + 1)) [0 ..< length tasks],
      s_feedback = [], s_score = None, s_levelLabel = [], s_status = Idle, s_errorMsg = None\<rparr>"

text \<open>
  The students the import handler sets, from the text of the file; \<open>uuidv4 k\<close> is the id
  drawn for row \<open>k\<close>.
\<close>

definition importCsv :: "(nat \<Rightarrow> jsstring) \<Rightarrow> jsstring list \<Rightarrow> jsstring \<Rightarrow> student list" where
  "importCsv uuidv4 tasks text =
     (let rows = drop 1 (map (jsSplit [comma]) (jsSplit [newline] text))
      in map (\<lambda>(k, r). importRow tasks (uuidv4 k) r) (enumerate 0 rows))"

section \<open>Properties of the thresholds\<close>

lemma upt_5: "[0 ..< 5] = [0, 1, 2, 3, 4]"
  by (simp add: upt_rec)

lemma DEFAULT_LEVELS_length: "length DEFAULT_LEVELS = 5"
  by (simp add: DEFAULT_LEVELS_def)

lemma length_5_conv: "length xs = 5 \<longleftrightarrow> (\<exists>a b c d e. xs = [a, b, c, d, e])"
  by (auto simp: length_Suc_conv eval_nat_numeral)

lemma roundDouble_safe: "\<bar>n\<bar> \<le> 2 ^ 53 \<Longrightarrow> roundDouble n = Fin n"
  by (simp add: roundDouble_def)

lemma jsAdd_safe: "\<bar>a + b\<bar> \<le> 2 ^ 53 \<Longrightarrow> jsAdd (Fin a) (Fin b) = Fin (a + b)"
  by (simp add: roundDouble_safe)

lemma jsSub_safe: "\<bar>a - b\<bar> \<le> 2 ^ 53 \<Longrightarrow> jsSub (Fin a) (Fin b) = Fin (a - b)"
  by (simp add: jsSub_def roundDouble_safe)

lemma jsAdd_within:
  assumes "\<bar>x\<bar> \<le> X" "\<bar>y\<bar> \<le> Y" "X + Y \<le> 2 ^ 53"
  shows "jsAdd (Fin x) (Fin y) = Fin (x + y)"
proof (rule jsAdd_safe)
  have "\<bar>x + y\<bar> \<le> \<bar>x\<bar> + \<bar>y\<bar>" by (rule abs_triangle_ineq)
  then show "\<bar>x + y\<bar> \<le> 2 ^ 53" using assms by simp
qed

lemma finiteScore_Fin: "finiteScore l \<Longrightarrow> l_score l = Fin (scoreOf l)"
  by (cases "l_score l") (simp_all add: finiteScore_def scoreOf_def)

lemma levelsForEach_five:
  assumes "length lvls = 5" "list_all finiteScore lvls" "length rs = 5"
    and "\<forall>i<5. \<bar>rs ! i\<bar> \<le> B"
    and "B + (\<Sum>l\<leftarrow>lvls. \<bar>scoreOf l\<bar> + 1) \<le> 2 ^ 53"
  shows "levelsForEach lvls [0 ..< 5] (map Fin rs) =
     Inr (map Fin (map (\<lambda>i. rs ! i + (if i = 4 then 0 else scoreOf (lvls ! (i + 1)) + 1)) [0 ..< 5]))"
proof -
  obtain a b c d e where l: "lvls = [a, b, c, d, e]"
    using assms(1) by (auto simp: length_5_conv)
  obtain p q r s t where r: "rs = [p, q, r, s, t]"
    using assms(3) by (auto simp: length_5_conv)
  have sc: "l_score b = Fin (scoreOf b)" "l_score c = Fin (scoreOf c)"
    "l_score d = Fin (scoreOf d)" "l_score e = Fin (scoreOf e)"
    using assms(2) by (simp_all add: l finiteScore_Fin)
  have bp: "\<bar>p\<bar> \<le> B" "\<bar>q\<bar> \<le> B" "\<bar>r\<bar> \<le> B" "\<bar>s\<bar> \<le> B" "\<bar>t\<bar> \<le> B"
    using assms(4)[rule_format, of 0] assms(4)[rule_format, of 1] assms(4)[rule_format, of 2]
      assms(4)[rule_format, of 3] assms(4)[rule_format, of 4]
    by (simp_all add: r)
  have tot: "B + (\<bar>scoreOf a\<bar> + 1 + (\<bar>scoreOf b\<bar> + 1 + (\<bar>scoreOf c\<bar> + 1
      + (\<bar>scoreOf d\<bar> + 1 + (\<bar>scoreOf e\<bar> + 1))))) \<le> 2 ^ 53"
    using assms(5) by (simp add: l)
  define A where "A = \<bar>scoreOf a\<bar>"
  define Sb where "Sb = \<bar>scoreOf b\<bar>"
  define Sc where "Sc = \<bar>scoreOf c\<bar>"
  define Sd where "Sd = \<bar>scoreOf d\<bar>"
  define Se where "Se = \<bar>scoreOf e\<bar>"
  have nn: "0 \<le> A" "0 \<le> Sb" "0 \<le> Sc" "0 \<le> Sd" "0 \<le> Se" "0 \<le> B"
    using bp(1) by (simp_all add: A_def Sb_def Sc_def Sd_def Se_def)
  have tot': "B + (A + 1 + (Sb + 1 + (Sc + 1 + (Sd + 1 + (Se + 1))))) \<le> 2 ^ 53"
    using tot by (simp add: A_def Sb_def Sc_def Sd_def Se_def)
  have one: "\<bar>1 :: int\<bar> \<le> 1" "\<bar>0 :: int\<bar> \<le> 0" by simp_all
  have sb: "\<bar>scoreOf b\<bar> \<le> Sb" "\<bar>scoreOf b + 1\<bar> \<le> Sb + 1"
    and sc': "\<bar>scoreOf c\<bar> \<le> Sc" "\<bar>scoreOf c + 1\<bar> \<le> Sc + 1"
    and sd: "\<bar>scoreOf d\<bar> \<le> Sd" "\<bar>scoreOf d + 1\<bar> \<le> Sd + 1"
    and se: "\<bar>scoreOf e\<bar> \<le> Se" "\<bar>scoreOf e + 1\<bar> \<le> Se + 1"
    by (simp_all add: Sb_def Sc_def Sd_def Se_def)
  have lb1: "jsAdd (Fin (scoreOf b)) (Fin 1) = Fin (scoreOf b + 1)"
    using sb(1) one(1) by (rule jsAdd_within) (use nn tot' in simp)
  have lb2: "jsAdd (Fin (scoreOf c)) (Fin 1) = Fin (scoreOf c + 1)"
    using sc'(1) one(1) by (rule jsAdd_within) (use nn tot' in simp)
  have lb3: "jsAdd (Fin (scoreOf d)) (Fin 1) = Fin (scoreOf d + 1)"
    using sd(1) one(1) by (rule jsAdd_within) (use nn tot' in simp)
  have lb4: "jsAdd (Fin (scoreOf e)) (Fin 1) = Fin (scoreOf e + 1)"
    using se(1) one(1) by (rule jsAdd_within) (use nn tot' in simp)
  have ad1: "jsAdd (Fin p) (Fin (scoreOf b + 1)) = Fin (p + (scoreOf b + 1))"
    using bp(1) sb(2) by (rule jsAdd_within) (use nn tot' in simp)
  have ad2: "jsAdd (Fin q) (Fin (scoreOf c + 1)) = Fin (q + (scoreOf c + 1))"
    using bp(2) sc'(2) by (rule jsAdd_within) (use nn tot' in simp)
  have ad3: "jsAdd (Fin r) (Fin (scoreOf d + 1)) = Fin (r + (scoreOf d + 1))"
    using bp(3) sd(2) by (rule jsAdd_within) (use nn tot' in simp)
  have ad4: "jsAdd (Fin s) (Fin (scoreOf e + 1)) = Fin (s + (scoreOf e + 1))"
    using bp(4) se(2) by (rule jsAdd_within) (use nn tot' in simp)
  have ad5: "jsAdd (Fin t) (Fin 0) = Fin (t + 0)"
    using bp(5) one(2) by (rule jsAdd_within) (use nn tot' in simp)
  note ar = lb1 lb2 lb3 lb4 ad1 ad2 ad3 ad4 ad5
  show ?thesis
    by (simp add: l r upt_5 addAt_def sc ar del: jsAdd.simps)
qed

lemma levelFloorSpec_le_weight:
  assumes "length (c_levels c) = 5" "i < 5"
  shows "\<bar>levelFloorSpec c i\<bar> \<le> weight c" and "\<bar>scoreOf (c_levels c ! 0)\<bar> \<le> weight c"
proof -
  obtain a b c' d e where l: "c_levels c = [a, b, c', d, e]"
    using assms(1) by (auto simp: length_5_conv)
  have w: "weight c = \<bar>scoreOf a\<bar> + 1 + (\<bar>scoreOf b\<bar> + 1 + (\<bar>scoreOf c'\<bar> + 1
      + (\<bar>scoreOf d\<bar> + 1 + (\<bar>scoreOf e\<bar> + 1))))"
    by (simp add: weight_def l)
  show "\<bar>scoreOf (c_levels c ! 0)\<bar> \<le> weight c"
    unfolding w by (simp add: l)
  have "i = 0 \<or> i = 1 \<or> i = 2 \<or> i = 3 \<or> i = 4"
    using assms(2) by auto
  then show "\<bar>levelFloorSpec c i\<bar> \<le> weight c"
    unfolding w by (auto simp: levelFloorSpec_def l)
qed

lemma weight_nonneg: "0 \<le> weight c"
  unfolding weight_def by (rule sum_list_nonneg) auto

lemma floorSum_le_weight:
  assumes "\<forall>c\<in>set cs. length (c_levels c) = 5" "i < 5"
  shows "\<bar>\<Sum>c\<leftarrow>cs. levelFloorSpec c i\<bar> \<le> (\<Sum>c\<leftarrow>cs. weight c)"
  using assms(1)
proof (induction cs)
  case Nil
  then show ?case by simp
next
  case (Cons c cs)
  have "\<bar>levelFloorSpec c i\<bar> \<le> weight c"
    using Cons.prems assms(2) by (intro levelFloorSpec_le_weight) auto
  moreover have "\<bar>\<Sum>c\<leftarrow>cs. levelFloorSpec c i\<bar> \<le> (\<Sum>c\<leftarrow>cs. weight c)"
    using Cons.prems by (intro Cons.IH) auto
  ultimately show ?case by simp
qed

lemma criteriaForEach_five:
  assumes "\<forall>c\<in>set cs. length (c_levels c) = 5"
    and "\<forall>c\<in>set cs. list_all finiteScore (c_levels c)"
    and "length rs = 5"
    and "\<forall>i<5. \<bar>rs ! i\<bar> \<le> B" and "\<bar>m\<bar> \<le> B"
    and "B + (\<Sum>c\<leftarrow>cs. weight c) \<le> 2 ^ 53"
  shows "criteriaForEach cs (map Fin rs, Fin m) =
     Inr (map Fin (map (\<lambda>i. rs ! i + (\<Sum>c\<leftarrow>cs. levelFloorSpec c i)) [0 ..< 5]),
          Fin (m + topScoreSumSpec cs))"
  using assms
proof (induction cs arbitrary: rs m B)
  case Nil
  then show ?case
    by (auto simp: length_5_conv upt_5 topScoreSumSpec_def)
next
  case (Cons c cs)
  have len: "length (c_levels c) = 5" using Cons.prems(1) by simp
  have fin: "list_all finiteScore (c_levels c)" using Cons.prems(2) by simp
  obtain l0 ls where cl: "c_levels c = l0 # ls"
    using len by (cases "c_levels c") auto
  have l0: "l_score l0 = Fin (scoreOf l0)"
    using fin by (simp add: cl finiteScore_Fin)
  have wc: "0 \<le> (\<Sum>c\<leftarrow>cs. weight c)"
    by (rule sum_list_nonneg) (auto simp: weight_nonneg)
  have tot: "B + weight c + (\<Sum>c\<leftarrow>cs. weight c) \<le> 2 ^ 53"
    using Cons.prems(6) by simp
  let ?rs' = "map (\<lambda>i. rs ! i + levelFloorSpec c i) [0 ..< 5]"
  have inner: "levelsForEach (c_levels c) [0 ..< 5] (map Fin rs) =
     Inr (map Fin (map (\<lambda>i. rs ! i + (if i = 4 then 0 else scoreOf (c_levels c ! (i + 1)) + 1))
            [0 ..< 5]))"
    using len fin Cons.prems(3,4)
  proof (rule levelsForEach_five)
    show "B + (\<Sum>l\<leftarrow>c_levels c. \<bar>scoreOf l\<bar> + 1) \<le> 2 ^ 53"
      using tot wc by (simp add: weight_def)
  qed
  have step: "levelsForEach (c_levels c) [0 ..< length (c_levels c)] (map Fin rs) = Inr (map Fin ?rs')"
    using inner by (simp add: len levelFloorSpec_def)
  have top: "jsAdd (Fin m) (l_score l0) = Fin (m + scoreOf l0)"
  proof -
    have "\<bar>scoreOf l0\<bar> \<le> weight c"
      using levelFloorSpec_le_weight(2)[OF len, of 0] by (simp add: cl)
    then have "\<bar>m + scoreOf l0\<bar> \<le> 2 ^ 53"
      using Cons.prems(5) tot wc by linarith
    then show ?thesis
      unfolding l0 by (rule jsAdd_safe)
  qed
  have b': "\<forall>i<5. \<bar>?rs' ! i\<bar> \<le> B + weight c"
  proof (intro allI impI)
    fix i :: nat
    assume i: "i < 5"
    have "\<bar>levelFloorSpec c i\<bar> \<le> weight c"
      using len i by (rule levelFloorSpec_le_weight(1))
    moreover have "\<bar>rs ! i\<bar> \<le> B" using Cons.prems(4) i by simp
    ultimately show "\<bar>?rs' ! i\<bar> \<le> B + weight c"
      using i by (simp del: upt_Suc)
  qed
  have m': "\<bar>m + scoreOf l0\<bar> \<le> B + weight c"
  proof -
    have "\<bar>scoreOf l0\<bar> \<le> weight c"
      using levelFloorSpec_le_weight(2)[OF len, of 0] by (simp add: cl)
    then show ?thesis using Cons.prems(5) by linarith
  qed
  have rest: "criteriaForEach cs (map Fin ?rs', Fin (m + scoreOf l0)) =
     Inr (map Fin (map (\<lambda>i. ?rs' ! i + (\<Sum>c\<leftarrow>cs. levelFloorSpec c i)) [0 ..< 5]),
          Fin (m + scoreOf l0 + topScoreSumSpec cs))"
    using Cons.prems(1,2) b' m' tot by (intro Cons.IH) auto
  have unfold: "criteriaForEach (c # cs) (map Fin rs, Fin m)
      = criteriaForEach cs (map Fin ?rs', Fin (m + scoreOf l0))"
    using step top by (simp add: cl del: jsAdd.simps)
  show ?case
    unfolding unfold rest by (simp add: upt_5 topScoreSumSpec_def cl)
qed

lemma default_label_pieces:
  "map (\<lambda>l. case jsSplit (ascii '' ('') (l_label l) of [] \<Rightarrow> [] | piece # _ \<Rightarrow> piece) DEFAULT_LEVELS
     = SHORT_LABELS"
  by (simp add: DEFAULT_LEVELS_def SHORT_LABELS_def ascii_def)

lemma thresholdAt_explicit:
  assumes "i < 5"
  shows "thresholdAt rf m i =
     Inr \<lparr>th_label = SHORT_LABELS ! i, th_floor = rf ! i,
          th_ceiling = (if i = 0 then m else jsSub (rf ! (i - 1)) (Fin 1))\<rparr>"
proof -
  let ?F = "\<lambda>l. case jsSplit (ascii '' ('') (l_label l) of [] \<Rightarrow> [] | piece # _ \<Rightarrow> piece"
  have "?F (DEFAULT_LEVELS ! i) = map ?F DEFAULT_LEVELS ! i"
    using assms(1) by (simp add: DEFAULT_LEVELS_length)
  also have "\<dots> = SHORT_LABELS ! i"
    by (simp only: default_label_pieces)
  finally have lab: "?F (DEFAULT_LEVELS ! i) = SHORT_LABELS ! i" .
  show ?thesis
    using assms(1) by (simp add: thresholdAt_def DEFAULT_LEVELS_length lab)
qed

lemma thresholdAt_default:
  assumes "i < 5" "length fs = 5" "\<forall>j<5. \<bar>fs ! j\<bar> < 2 ^ 53"
  shows "thresholdAt (map Fin fs) (Fin m) i =
     Inr \<lparr>th_label = SHORT_LABELS ! i, th_floor = Fin (fs ! i),
          th_ceiling = Fin (if i = 0 then m else fs ! (i - 1) - 1)\<rparr>"
proof -
  let ?F = "\<lambda>l. case jsSplit (ascii '' ('') (l_label l) of [] \<Rightarrow> [] | piece # _ \<Rightarrow> piece"
  have "?F (DEFAULT_LEVELS ! i) = map ?F DEFAULT_LEVELS ! i"
    using assms(1) by (simp add: DEFAULT_LEVELS_length)
  also have "\<dots> = SHORT_LABELS ! i"
    by (simp only: default_label_pieces)
  finally have lab: "?F (DEFAULT_LEVELS ! i) = SHORT_LABELS ! i" .
  have sub: "jsSub (Fin (fs ! (i - 1))) (Fin 1) = Fin (fs ! (i - 1) - 1)"
  proof (rule jsSub_safe)
    have "\<bar>fs ! (i - 1)\<bar> < 2 ^ 53" using assms(1,3) by simp
    then show "\<bar>fs ! (i - 1) - 1\<bar> \<le> 2 ^ 53" by linarith
  qed
  have "i - 1 < length fs" "i < length fs" using assms(1,2) by simp_all
  then show ?thesis
    using assms(1) sub by (simp add: thresholdAt_def DEFAULT_LEVELS_length lab)
qed

lemma mapE_Inr:
  "\<forall>x\<in>set xs. f x = Inr (g x) \<Longrightarrow> mapE f xs = Inr (map g xs)"
  by (induction xs) auto

lemma thresholds_explicit:
  assumes "\<forall>c\<in>set criteria. length (c_levels c) = 5" "safeScores criteria"
  shows "totalScoreThresholds criteria = Inr (thresholdsSpec criteria)"
proof -
  have fin: "\<forall>c\<in>set criteria. list_all finiteScore (c_levels c)"
    and tot: "(\<Sum>c\<leftarrow>criteria. weight c) < 2 ^ 53"
    using assms(2) by (simp_all add: safeScores_def list_all_iff)
  have fe: "criteriaForEach criteria (map Fin [0, 0, 0, 0, 0], Fin 0) =
     Inr (map Fin (map (\<lambda>i. [0, 0, 0, 0, 0] ! i + (\<Sum>c\<leftarrow>criteria. levelFloorSpec c i)) [0 ..< 5]),
          Fin (0 + topScoreSumSpec criteria))"
  proof (rule criteriaForEach_five[where B = 0])
    show "\<forall>i<5. \<bar>[0, 0, 0, 0, 0 :: int] ! i\<bar> \<le> 0"
      by (auto simp: less_Suc_eq eval_nat_numeral)
    show "0 + (\<Sum>c\<leftarrow>criteria. weight c) \<le> 2 ^ 53" using tot by simp
  qed (use assms(1) fin in simp_all)
  have fv: "map (\<lambda>i. [0, 0, 0, 0, 0] ! i + (\<Sum>c\<leftarrow>criteria. levelFloorSpec c i)) [0 ..< 5]
      = floorVectorSpec criteria"
    by (simp add: floorVectorSpec_def upt_5)
  have len: "length (floorVectorSpec criteria) = 5"
    by (simp add: floorVectorSpec_def)
  have bound: "\<forall>j<5. \<bar>floorVectorSpec criteria ! j\<bar> < 2 ^ 53"
  proof (intro allI impI)
    fix j :: nat
    assume j: "j < 5"
    have "\<bar>\<Sum>c\<leftarrow>criteria. levelFloorSpec c j\<bar> \<le> (\<Sum>c\<leftarrow>criteria. weight c)"
      using assms(1) j by (rule floorSum_le_weight)
    then show "\<bar>floorVectorSpec criteria ! j\<bar> < 2 ^ 53"
      using tot j by (simp add: floorVectorSpec_def del: upt_Suc)
  qed
  have "mapE (thresholdAt (map Fin (floorVectorSpec criteria)) (Fin (topScoreSumSpec criteria)))
          [0 ..< 5] = Inr (thresholdsSpec criteria)"
    unfolding thresholdsSpec_def
  proof (intro mapE_Inr ballI)
    fix x
    assume "x \<in> set [0 ..< 5]"
    then have "x < 5" by simp
    then show "thresholdAt (map Fin (floorVectorSpec criteria)) (Fin (topScoreSumSpec criteria)) x =
       Inr \<lparr>th_label = SHORT_LABELS ! x, th_floor = Fin (floorVectorSpec criteria ! x),
            th_ceiling = Fin (if x = 0 then topScoreSumSpec criteria
                              else floorVectorSpec criteria ! (x - 1) - 1)\<rparr>"
      using len bound by (rule thresholdAt_default)
  qed
  then show ?thesis
    using fe by (simp add: totalScoreThresholds_def fv len)
qed

lemma thresholds_five:
  assumes "\<forall>c\<in>set criteria. length (c_levels c) = 5" "safeScores criteria"
  shows "\<exists>ths. totalScoreThresholds criteria = Inr ths \<and> length ths = 5
      \<and> map th_floor ths = map Fin (floorVectorSpec criteria)
      \<and> map th_label ths = SHORT_LABELS
      \<and> th_ceiling (ths ! 0) = Fin (topScoreSumSpec criteria)
      \<and> (\<forall>i. 0 < i \<and> i < 5 \<longrightarrow> th_ceiling (ths ! i) = Fin (floorVectorSpec criteria ! (i - 1) - 1))"
proof -
  let ?ths = "thresholdsSpec criteria"
  have 1: "length ?ths = 5" by (simp add: thresholdsSpec_def)
  have 2: "map th_floor ?ths = map Fin (floorVectorSpec criteria)"
    by (simp add: thresholdsSpec_def floorVectorSpec_def upt_5)
  have 3: "map th_label ?ths = SHORT_LABELS"
    by (simp add: thresholdsSpec_def SHORT_LABELS_def upt_5)
  have 4: "th_ceiling (?ths ! 0) = Fin (topScoreSumSpec criteria)"
    by (simp add: thresholdsSpec_def)
  have 5: "\<forall>i. 0 < i \<and> i < 5 \<longrightarrow> th_ceiling (?ths ! i) = Fin (floorVectorSpec criteria ! (i - 1) - 1)"
  proof (intro allI impI)
    fix i :: nat
    assume "0 < i \<and> i < 5"
    then have "i < 5" "i \<noteq> 0" by auto
    then show "th_ceiling (?ths ! i) = Fin (floorVectorSpec criteria ! (i - 1) - 1)"
      by (simp add: thresholdsSpec_def del: upt_Suc)
  qed
  show ?thesis
    using thresholds_explicit[OF assms] 1 2 3 4 5 by (intro exI[of _ ?ths] conjI)
qed

lemma find_first_match:
  "i < length xs \<Longrightarrow> P (xs ! i) \<Longrightarrow> \<forall>j<i. \<not> P (xs ! j) \<Longrightarrow> find P xs = Some (xs ! i)"
proof (induction xs arbitrary: i)
  case Nil
  then show ?case by simp
next
  case (Cons x xs)
  show ?case
  proof (cases i)
    case 0
    with Cons.prems show ?thesis by simp
  next
    case (Suc k)
    have "\<not> P x" using Cons.prems(3) Suc by auto
    moreover have "find P xs = Some (xs ! k)"
      using Cons.prems Suc by (intro Cons.IH) auto
    ultimately show ?thesis by (simp add: Suc)
  qed
qed

lemma getLevelLabelFromScore_first:
  assumes "i < length ths" "brackets (ths ! i) score" "\<forall>j<i. \<not> brackets (ths ! j) score"
  shows "getLevelLabelFromScore ths score = th_label (ths ! i)"
proof -
  have "find (\<lambda>t. brackets t score) ths = Some (ths ! i)"
    using assms by (intro find_first_match) auto
  then show ?thesis
    by (simp add: getLevelLabelFromScore_def brackets_def)
qed

lemma getLevelLabelFromScore_none:
  assumes "\<forall>i<length ths. \<not> brackets (ths ! i) score"
  shows "getLevelLabelFromScore ths score = UNDETERMINED"
proof -
  have "find (\<lambda>t. brackets t score) ths = None"
    using assms by (auto simp: find_None_iff in_set_conv_nth)
  then show ?thesis
    by (simp add: getLevelLabelFromScore_def brackets_def)
qed

lemma classifyScore_85:
  assumes "map l_score (c_levels c) = [Fin 100, Fin 89, Fin 79, Fin 69, Fin 59]"
  shows "classifyScore [c] 85 = Inr (SHORT_LABELS ! 1)"
proof -
  have "length (map l_score (c_levels c)) = 5"
    by (simp add: assms)
  then have len: "length (c_levels c) = 5" by simp
  then obtain a b c' d e where l: "c_levels c = [a, b, c', d, e]"
    by (auto simp: length_5_conv)
  have sc: "l_score a = Fin 100" "l_score b = Fin 89" "l_score c' = Fin 79"
    "l_score d = Fin 69" "l_score e = Fin 59"
    using assms by (simp_all add: l)
  have safe: "safeScores [c]"
    by (simp add: safeScores_def weight_def finiteScore_def scoreOf_def l sc)
  have five: "\<forall>x\<in>set [c]. length (c_levels x) = 5"
    using len by simp
  have ths: "totalScoreThresholds [c] = Inr (thresholdsSpec [c])"
    using five safe by (rule thresholds_explicit)
  have fv: "floorVectorSpec [c] = [90, 80, 70, 60, 0]"
    by (simp add: floorVectorSpec_def levelFloorSpec_def scoreOf_def l sc upt_5)
  have top: "topScoreSumSpec [c] = 100"
    by (simp add: topScoreSumSpec_def scoreOf_def l sc)
  have "getLevelLabelFromScore (thresholdsSpec [c]) 85 = SHORT_LABELS ! 1"
    by (simp add: thresholdsSpec_def fv top upt_5 getLevelLabelFromScore_def)
  then show ?thesis
    by (simp add: classifyScore_def ths)
qed

lemma newCriterion_scores:
  "map l_score (c_levels (newCriterion u)) = [Fin 100, Fin 89, Fin 79, Fin 69, Fin 59]"
  by (simp add: newCriterion_def DEFAULT_LEVELS_def)

text \<open>
  C3, as amended. For one criterion with the level scores 100, 89, 79, 69, 59, whatever
  its id, focus and level labels, the total score 85 is classified with the second
  default label cut before its parenthesis.
\<close>

theorem single_criterion_85_second_band:
  assumes "map l_score (c_levels c) = [Fin 100, Fin 89, Fin 79, Fin 69, Fin 59]"
  shows "classifyScore [c] 85 = Inr [0x8868, 0x73FE, 0x826F, 0x597D]
    \<and> l_label (DEFAULT_LEVELS ! 1) = [0x8868, 0x73FE, 0x826F, 0x597D] @ ascii '' (Good)''"
  using classifyScore_85[OF assms] by (simp add: SHORT_LABELS_def DEFAULT_LEVELS_def)

theorem single_criterion_85_second_band_witness:
  "map l_score (c_levels (newCriterion [])) = [Fin 100, Fin 89, Fin 79, Fin 69, Fin 59]
   \<and> classifyScore [newCriterion []] 85 = Inr [0x8868, 0x73FE, 0x826F, 0x597D]"
  using single_criterion_85_second_band[OF newCriterion_scores, of "[]"]
  by (simp add: newCriterion_scores)

text \<open>
  C3 as stated fails: the label of the second-highest level of the criterion is the whole
  default label, with its parenthesis, and the classification gives the label without it.
\<close>

theorem single_criterion_85_counterexample:
  "map l_score (c_levels (newCriterion [])) = [Fin 100, Fin 89, Fin 79, Fin 69, Fin 59]
   \<and> classifyScore [newCriterion []] 85 \<noteq> Inr (l_label (c_levels (newCriterion []) ! 1))"
proof -
  have "classifyScore [newCriterion []] 85 = Inr (SHORT_LABELS ! 1)"
    using newCriterion_scores by (rule classifyScore_85)
  moreover have "SHORT_LABELS ! 1 \<noteq> l_label (c_levels (newCriterion []) ! 1)"
    by (simp add: newCriterion_def DEFAULT_LEVELS_def SHORT_LABELS_def ascii_def)
  ultimately show ?thesis
    by (simp add: newCriterion_scores)
qed

text \<open>
  C2, as amended. When every criterion has exactly five levels and the scores are finite
  integers whose magnitudes, plus one for each level, total less than \<open>2\<^sup>5\<^sup>3\<close>, the
  thresholds are computed without error; the floor of each level is the sum over all
  criteria of that level's floor within the criterion (next-lower score plus one, zero
  for the bottom level); the top ceiling is the sum of the top scores and every other
  ceiling is the floor of the level above minus one; a score is given the label of the
  first band, from the top, whose floor and ceiling bracket it, and the sentinel label
  when no band does.
\<close>

theorem threshold_derivation:
  assumes "\<forall>c\<in>set criteria. length (c_levels c) = 5"
    and "safeScores criteria"
  shows "\<exists>ths. totalScoreThresholds criteria = Inr ths \<and> length ths = 5
      \<and> map th_floor ths = map Fin (floorVectorSpec criteria)
      \<and> map th_label ths = SHORT_LABELS
      \<and> th_ceiling (ths ! 0) = Fin (topScoreSumSpec criteria)
      \<and> (\<forall>i. 0 < i \<and> i < 5 \<longrightarrow> th_ceiling (ths ! i) = Fin (floorVectorSpec criteria ! (i - 1) - 1))
      \<and> (\<forall>score i. i < 5 \<and> brackets (ths ! i) score \<and> (\<forall>j<i. \<not> brackets (ths ! j) score)
            \<longrightarrow> getLevelLabelFromScore ths score = th_label (ths ! i))
      \<and> (\<forall>score. (\<forall>i<5. \<not> brackets (ths ! i) score)
            \<longrightarrow> getLevelLabelFromScore ths score = UNDETERMINED)"
proof -
  from thresholds_five[OF assms] obtain ths where
    ths: "totalScoreThresholds criteria = Inr ths" "length ths = 5"
      "map th_floor ths = map Fin (floorVectorSpec criteria)"
      "map th_label ths = SHORT_LABELS"
      "th_ceiling (ths ! 0) = Fin (topScoreSumSpec criteria)"
      "\<forall>i. 0 < i \<and> i < 5 \<longrightarrow> th_ceiling (ths ! i) = Fin (floorVectorSpec criteria ! (i - 1) - 1)"
    by (elim exE conjE) (rule that)
  have first: "\<forall>score i. i < 5 \<and> brackets (ths ! i) score \<and> (\<forall>j<i. \<not> brackets (ths ! j) score)
            \<longrightarrow> getLevelLabelFromScore ths score = th_label (ths ! i)"
  proof (intro allI impI)
    fix score i
    assume a: "i < 5 \<and> brackets (ths ! i) score \<and> (\<forall>j<i. \<not> brackets (ths ! j) score)"
    show "getLevelLabelFromScore ths score = th_label (ths ! i)"
      by (rule getLevelLabelFromScore_first) (use a ths(2) in simp_all)
  qed
  have none: "\<forall>score. (\<forall>i<5. \<not> brackets (ths ! i) score)
            \<longrightarrow> getLevelLabelFromScore ths score = UNDETERMINED"
  proof (intro allI impI)
    fix score
    assume a: "\<forall>i<5. \<not> brackets (ths ! i) score"
    show "getLevelLabelFromScore ths score = UNDETERMINED"
      by (rule getLevelLabelFromScore_none) (use a ths(2) in simp)
  qed
  show ?thesis
    by (intro exI[of _ ths] conjI ths first none)
qed

lemma demo_criteria_five:
  "\<forall>c\<in>set [newCriterion [], demoCriterion]. length (c_levels c) = 5"
  by (simp add: newCriterion_def demoCriterion_def scored_def DEFAULT_LEVELS_def)

lemma demo_criteria_safe: "safeScores [newCriterion [], demoCriterion]"
  by (simp add: safeScores_def weight_def finiteScore_def scoreOf_def newCriterion_def
      demoCriterion_def scored_def DEFAULT_LEVELS_def)

lemma demo_criteria_floors: "floorVectorSpec [newCriterion [], demoCriterion] = [131, 111, 91, 71, 0]"
  by (simp add: floorVectorSpec_def levelFloorSpec_def scoreOf_def newCriterion_def
      demoCriterion_def scored_def DEFAULT_LEVELS_def upt_5)

lemma demo_criteria_top: "topScoreSumSpec [newCriterion [], demoCriterion] = 150"
  by (simp add: topScoreSumSpec_def scoreOf_def newCriterion_def demoCriterion_def scored_def
      DEFAULT_LEVELS_def)

theorem threshold_derivation_witness:
  "length (c_levels (newCriterion [])) = 5 \<and> length (c_levels demoCriterion) = 5
   \<and> safeScores [newCriterion [], demoCriterion]
   \<and> (\<exists>ths. totalScoreThresholds [newCriterion [], demoCriterion] = Inr ths
         \<and> map th_floor ths = [Fin 131, Fin 111, Fin 91, Fin 71, Fin 0]
         \<and> map th_ceiling ths = [Fin 150, Fin 130, Fin 110, Fin 90, Fin 70]
         \<and> getLevelLabelFromScore ths 120 = SHORT_LABELS ! 1
         \<and> getLevelLabelFromScore ths 151 = UNDETERMINED)"
proof -
  let ?cs = "[newCriterion [], demoCriterion]"
  from threshold_derivation[OF demo_criteria_five demo_criteria_safe] obtain ths where
    res: "totalScoreThresholds ?cs = Inr ths"
    and n: "length ths = 5"
    and floors: "map th_floor ths = map Fin (floorVectorSpec ?cs)"
    and labels: "map th_label ths = SHORT_LABELS"
    and ceil0: "th_ceiling (ths ! 0) = Fin (topScoreSumSpec ?cs)"
    and ceils: "\<forall>i. 0 < i \<and> i < 5 \<longrightarrow> th_ceiling (ths ! i) = Fin (floorVectorSpec ?cs ! (i - 1) - 1)"
    and first: "\<forall>score i. i < 5 \<and> brackets (ths ! i) score \<and> (\<forall>j<i. \<not> brackets (ths ! j) score)
            \<longrightarrow> getLevelLabelFromScore ths score = th_label (ths ! i)"
    and none: "\<forall>score. (\<forall>i<5. \<not> brackets (ths ! i) score)
            \<longrightarrow> getLevelLabelFromScore ths score = UNDETERMINED"
    by (elim exE conjE) (rule that)
  have fl: "map th_floor ths = [Fin 131, Fin 111, Fin 91, Fin 71, Fin 0]"
    using floors by (simp add: demo_criteria_floors)
  obtain t0 t1 t2 t3 t4 where ths: "ths = [t0, t1, t2, t3, t4]"
    using n by (auto simp: length_5_conv)
  have f: "th_floor t0 = Fin 131" "th_floor t1 = Fin 111" "th_floor t2 = Fin 91"
    "th_floor t3 = Fin 71" "th_floor t4 = Fin 0"
    using fl by (simp_all add: ths)
  have c: "th_ceiling t0 = Fin 150" "th_ceiling t1 = Fin 130" "th_ceiling t2 = Fin 110"
    "th_ceiling t3 = Fin 90" "th_ceiling t4 = Fin 70"
    using ceil0 ceils[rule_format, of 1] ceils[rule_format, of 2] ceils[rule_format, of 3]
      ceils[rule_format, of 4]
    by (simp_all add: ths demo_criteria_floors demo_criteria_top)
  have cl: "map th_ceiling ths = [Fin 150, Fin 130, Fin 110, Fin 90, Fin 70]"
    by (simp add: ths c)
  have b1: "1 < (5::nat) \<and> brackets (ths ! 1) 120 \<and> (\<forall>j<1. \<not> brackets (ths ! j) 120)"
    by (simp add: ths brackets_def f c)
  have l1: "th_label (ths ! 1) = SHORT_LABELS ! 1"
    using nth_map[of 1 ths th_label] n by (simp add: labels)
  have got: "getLevelLabelFromScore ths 120 = SHORT_LABELS ! 1"
    using first[rule_format, OF b1] l1 by simp
  have out: "\<forall>i<5. \<not> brackets (ths ! i) 151"
  proof (intro allI impI)
    fix i :: nat
    assume "i < 5"
    then have "i = 0 \<or> i = 1 \<or> i = 2 \<or> i = 3 \<or> i = 4" by auto
    then show "\<not> brackets (ths ! i) 151"
      by (auto simp: ths brackets_def f c)
  qed
  have sentinel: "getLevelLabelFromScore ths 151 = UNDETERMINED"
    using none[THEN spec, of 151] out by (rule mp)
  have "\<exists>ths. totalScoreThresholds ?cs = Inr ths
         \<and> map th_floor ths = [Fin 131, Fin 111, Fin 91, Fin 71, Fin 0]
         \<and> map th_ceiling ths = [Fin 150, Fin 130, Fin 110, Fin 90, Fin 70]
         \<and> getLevelLabelFromScore ths 120 = SHORT_LABELS ! 1
         \<and> getLevelLabelFromScore ths 151 = UNDETERMINED"
    using res fl cl got sentinel by (intro exI[of _ ths] conjI)
  then show ?thesis
    using demo_criteria_five demo_criteria_safe by simp
qed

lemma bitLength_big: "bitLength 9007199254740993 = 54"
  by (simp add: bitLength.simps)

lemma roundDouble_big: "roundDouble 9007199254740993 = Fin 9007199254740992"
  by (simp add: roundDouble_def bitLength_big Let_def)

text \<open>
  C2 as stated fails: with the second score \<open>2\<^sup>5\<^sup>3\<close>, the floor of the top level is
  \<open>2\<^sup>5\<^sup>3\<close>, where the sum in exact arithmetic is \<open>2\<^sup>5\<^sup>3 + 1\<close>.
\<close>

theorem threshold_derivation_counterexample:
  "length (c_levels bigCriterion) = 5
   \<and> map l_score (c_levels bigCriterion) = [Fin 100, Fin 9007199254740992, Fin 79, Fin 69, Fin 59]
   \<and> totalScoreThresholds [bigCriterion] =
       Inr [\<lparr>th_label = SHORT_LABELS ! 0, th_floor = Fin 9007199254740992, th_ceiling = Fin 100\<rparr>,
            \<lparr>th_label = SHORT_LABELS ! 1, th_floor = Fin 80, th_ceiling = Fin 9007199254740991\<rparr>,
            \<lparr>th_label = SHORT_LABELS ! 2, th_floor = Fin 70, th_ceiling = Fin 79\<rparr>,
            \<lparr>th_label = SHORT_LABELS ! 3, th_floor = Fin 60, th_ceiling = Fin 69\<rparr>,
            \<lparr>th_label = SHORT_LABELS ! 4, th_floor = Fin 0, th_ceiling = Fin 59\<rparr>]
   \<and> floorVectorSpec [bigCriterion] = [9007199254740993, 80, 70, 60, 0]"
proof -
  have lv: "c_levels bigCriterion =
     [(DEFAULT_LEVELS ! 0)\<lparr>l_score := Fin 100\<rparr>, (DEFAULT_LEVELS ! 1)\<lparr>l_score := Fin 9007199254740992\<rparr>,
      (DEFAULT_LEVELS ! 2)\<lparr>l_score := Fin 79\<rparr>, (DEFAULT_LEVELS ! 3)\<lparr>l_score := Fin 69\<rparr>,
      (DEFAULT_LEVELS ! 4)\<lparr>l_score := Fin 59\<rparr>]"
    by (simp add: bigCriterion_def scored_def DEFAULT_LEVELS_def)
  have small: "roundDouble 100 = Fin 100" "roundDouble 80 = Fin 80" "roundDouble 70 = Fin 70"
    "roundDouble 60 = Fin 60" "roundDouble 0 = Fin 0" "roundDouble 79 = Fin 79"
    "roundDouble 69 = Fin 69" "roundDouble 59 = Fin 59"
    "roundDouble 9007199254740991 = Fin 9007199254740991"
    "roundDouble 9007199254740992 = Fin 9007199254740992"
    by (simp_all add: roundDouble_safe)
  let ?rf = "[Fin 9007199254740992, Fin 80, Fin 70, Fin 60, Fin 0]"
  let ?g = "\<lambda>i. \<lparr>th_label = SHORT_LABELS ! i, th_floor = ?rf ! i,
                 th_ceiling = (if i = 0 then Fin 100 else jsSub (?rf ! (i - 1)) (Fin 1))\<rparr>"
  have cf: "criteriaForEach [bigCriterion] ([Fin 0, Fin 0, Fin 0, Fin 0, Fin 0], Fin 0)
      = Inr (?rf, Fin 100)"
    by (simp add: lv upt_5 addAt_def small roundDouble_big)
  have "length ?rf = 5"
    by simp
  then have len: "[0 ..< length ?rf] = [0 ..< 5]"
    by (simp only:)
  have m: "mapE (thresholdAt ?rf (Fin 100)) [0 ..< length ?rf] = Inr (map ?g [0 ..< 5])"
    unfolding len
  proof (intro mapE_Inr ballI)
    fix i :: nat
    assume "i \<in> set [0 ..< 5]"
    then have "i < 5" by simp
    then show "thresholdAt ?rf (Fin 100) i = Inr (?g i)"
      by (rule thresholdAt_explicit)
  qed
  have tot: "totalScoreThresholds [bigCriterion] = Inr (map ?g [0 ..< 5])"
    unfolding totalScoreThresholds_def cf by (simp only: sum.simps prod.case m)
  have "map ?g [0 ..< 5] =
           [\<lparr>th_label = SHORT_LABELS ! 0, th_floor = Fin 9007199254740992, th_ceiling = Fin 100\<rparr>,
            \<lparr>th_label = SHORT_LABELS ! 1, th_floor = Fin 80, th_ceiling = Fin 9007199254740991\<rparr>,
            \<lparr>th_label = SHORT_LABELS ! 2, th_floor = Fin 70, th_ceiling = Fin 79\<rparr>,
            \<lparr>th_label = SHORT_LABELS ! 3, th_floor = Fin 60, th_ceiling = Fin 69\<rparr>,
            \<lparr>th_label = SHORT_LABELS ! 4, th_floor = Fin 0, th_ceiling = Fin 59\<rparr>]"
    by (simp add: upt_5 jsSub_def small)
  with tot have "totalScoreThresholds [bigCriterion] =
       Inr [\<lparr>th_label = SHORT_LABELS ! 0, th_floor = Fin 9007199254740992, th_ceiling = Fin 100\<rparr>,
            \<lparr>th_label = SHORT_LABELS ! 1, th_floor = Fin 80, th_ceiling = Fin 9007199254740991\<rparr>,
            \<lparr>th_label = SHORT_LABELS ! 2, th_floor = Fin 70, th_ceiling = Fin 79\<rparr>,
            \<lparr>th_label = SHORT_LABELS ! 3, th_floor = Fin 60, th_ceiling = Fin 69\<rparr>,
            \<lparr>th_label = SHORT_LABELS ! 4, th_floor = Fin 0, th_ceiling = Fin 59\<rparr>]"
    by (simp only:)
  moreover have "floorVectorSpec [bigCriterion] = [9007199254740993, 80, 70, 60, 0]"
    by (simp add: floorVectorSpec_def levelFloorSpec_def scoreOf_def lv upt_5)
  ultimately show ?thesis
    by (simp add: lv)
qed

text \<open>
  A score field that was cleared holds \<open>NaN\<close>, and the floor of the level above is
  \<open>NaN\<close> then, which brackets no score.
\<close>

lemma cleared_score_floor:
  "criteriaForEach [scored uuid [Fin 100, NaN, Fin 79, Fin 69, Fin 59]]
       ([Fin 0, Fin 0, Fin 0, Fin 0, Fin 0], Fin 0)
     = Inr ([NaN, Fin 80, Fin 70, Fin 60, Fin 0], Fin 100)
   \<and> \<not> jsLe NaN (Fin score)"
proof -
  have lv: "c_levels (scored uuid [Fin 100, NaN, Fin 79, Fin 69, Fin 59]) =
     [(DEFAULT_LEVELS ! 0)\<lparr>l_score := Fin 100\<rparr>, (DEFAULT_LEVELS ! 1)\<lparr>l_score := NaN\<rparr>,
      (DEFAULT_LEVELS ! 2)\<lparr>l_score := Fin 79\<rparr>, (DEFAULT_LEVELS ! 3)\<lparr>l_score := Fin 69\<rparr>,
      (DEFAULT_LEVELS ! 4)\<lparr>l_score := Fin 59\<rparr>]"
    by (simp add: scored_def DEFAULT_LEVELS_def)
  have small: "roundDouble 100 = Fin 100" "roundDouble 80 = Fin 80" "roundDouble 70 = Fin 70"
    "roundDouble 60 = Fin 60" "roundDouble 0 = Fin 0"
    by (simp_all add: roundDouble_safe)
  show ?thesis
    by (simp add: lv upt_5 addAt_def small)
qed

section \<open>Properties of batch grading\<close>

lemma gradeOne_students:
  "a_students (gradeOne ev ths i s a) =
     map (\<lambda>st. if s_id st = s_id s then stepStudent ev ths i s st else st) (a_students a)"
  by (cases "ev i s")
     (simp_all add: gradeOne_def stepStudent_def markLoading_def markDone_def markError_def
        Let_def comp_def if_distrib cong: if_cong)

lemma gradeOne_apiCalls: "a_apiCalls (gradeOne ev ths i s a) = a_apiCalls a @ [s]"
  by (cases "ev i s") (simp_all add: gradeOne_def Let_def)

lemma gradeOne_errorToast:
  "a_errorToast (gradeOne ev ths i s a) = (if isl (ev i s) then Some PAUSED_TOAST else a_errorToast a)"
  by (cases "ev i s") (simp_all add: gradeOne_def Let_def)

lemma gradeLoop_students:
  "a_students (gradeLoop ev ths i ts a) = map (applyTargets ev ths i ts) (a_students a)"
proof (induction ts arbitrary: i a)
  case Nil
  show ?case by (simp add: map_idI)
next
  case (Cons t ts)
  show ?case
    by (simp add: Cons.IH gradeOne_students)
qed

lemma gradeLoop_apiCalls: "a_apiCalls (gradeLoop ev ths i ts a) = a_apiCalls a @ ts"
  by (induction ts arbitrary: i a) (simp_all add: gradeOne_apiCalls)

lemma gradeLoop_errorToast:
  "a_errorToast (gradeLoop ev ths i ts a) =
     (if \<exists>k<length ts. isl (ev (i + k) (ts ! k)) then Some PAUSED_TOAST else a_errorToast a)"
proof (induction ts arbitrary: i a)
  case Nil
  then show ?case by simp
next
  case (Cons t ts)
  have split: "(\<exists>k<length (t # ts). isl (ev (i + k) ((t # ts) ! k)))
      \<longleftrightarrow> isl (ev i t) \<or> (\<exists>k<length ts. isl (ev (i + 1 + k) (ts ! k)))"
    by (auto simp: less_Suc_eq_0_disj)
  show ?case
    unfolding split by (auto simp: Cons.IH gradeOne_errorToast)
qed

lemma stepStudent_id: "s_id (stepStudent ev ths i s st) = s_id st"
  by (cases "ev i s") (simp_all add: stepStudent_def)

lemma applyTargets_id: "s_id (applyTargets ev ths i ts st) = s_id st"
  by (induction ts arbitrary: i st) (simp_all add: stepStudent_id)

lemma applyTargets_other:
  "s_id st \<notin> s_id ` set ts \<Longrightarrow> applyTargets ev ths i ts st = st"
  by (induction ts arbitrary: i) auto

lemma applyTargets_hit:
  assumes "distinct (map s_id ts)" "k < length ts" "s_id st = s_id (ts ! k)"
  shows "applyTargets ev ths i ts st = stepStudent ev ths (i + k) (ts ! k) st"
  using assms
proof (induction ts arbitrary: i k st)
  case Nil
  then show ?case by simp
next
  case (Cons t ts)
  show ?case
  proof (cases k)
    case 0
    have "s_id (stepStudent ev ths i t st) \<notin> s_id ` set ts"
      using Cons.prems 0 by (simp add: stepStudent_id)
    then show ?thesis
      using Cons.prems 0 by (simp add: applyTargets_other)
  next
    case (Suc j)
    have mem: "s_id (ts ! j) \<in> s_id ` set ts" using Cons.prems Suc by simp
    have fresh: "s_id t \<notin> s_id ` set ts" using Cons.prems(1) by simp
    have same: "s_id st = s_id (ts ! j)" using Cons.prems(3) Suc by simp
    have "s_id st \<noteq> s_id t" using mem fresh same by metis
    moreover have "applyTargets ev ths (i + 1) ts st = stepStudent ev ths (i + 1 + j) (ts ! j) st"
      using Cons.prems Suc by (intro Cons.IH) auto
    ultimately show ?thesis by (simp add: Suc)
  qed
qed

lemma startBatchGrading_students:
  "a_students (startBatchGrading ev ths a) =
     map (applyTargets ev ths 0 (filter isTarget (a_students a))) (a_students a)"
  by (simp add: startBatchGrading_def Let_def gradeLoop_students map_idI)

lemma startBatchGrading_apiCalls:
  "a_apiCalls (startBatchGrading ev ths a) = a_apiCalls a @ filter isTarget (a_students a)"
  by (simp add: startBatchGrading_def Let_def gradeLoop_apiCalls)

lemma startBatchGrading_errorToast:
  "a_errorToast (startBatchGrading ev ths a) =
     (if \<exists>k<length (filter isTarget (a_students a)). isl (ev k (filter isTarget (a_students a) ! k))
      then Some PAUSED_TOAST else a_errorToast a)"
  by (auto simp: startBatchGrading_def Let_def gradeLoop_errorToast)

lemma batch_target_outcome:
  assumes "distinct (map s_id (a_students a))"
    and "k < length (filter isTarget (a_students a))"
    and "p < length (a_students a)"
    and "a_students a ! p = filter isTarget (a_students a) ! k"
  shows "a_students (startBatchGrading ev ths a) ! p =
     stepStudent ev ths k (a_students a ! p) (a_students a ! p)"
proof -
  let ?ts = "filter isTarget (a_students a)"
  have d: "distinct (map s_id ?ts)"
    using assms(1) by (rule distinct_map_filter)
  have "applyTargets ev ths 0 ?ts (a_students a ! p) =
      stepStudent ev ths (0 + k) (?ts ! k) (a_students a ! p)"
    using d assms(2) by (rule applyTargets_hit) (simp add: assms(4))
  then show ?thesis
    using assms(3,4) by (simp add: startBatchGrading_students)
qed

lemma batch_nontarget:
  assumes "distinct (map s_id (a_students a))"
    and "p < length (a_students a)"
    and "\<not> isTarget (a_students a ! p)"
  shows "a_students (startBatchGrading ev ths a) ! p = a_students a ! p"
proof -
  let ?S = "a_students a"
  have inj: "inj_on s_id (set ?S)"
    using assms(1) by (simp add: distinct_map)
  have "s_id (?S ! p) \<notin> s_id ` set (filter isTarget ?S)"
  proof
    assume "s_id (?S ! p) \<in> s_id ` set (filter isTarget ?S)"
    then obtain t where t: "t \<in> set ?S" "isTarget t" "s_id (?S ! p) = s_id t"
      by auto
    have "?S ! p \<in> set ?S" using assms(2) by simp
    with inj t have "?S ! p = t" by (auto dest: inj_onD)
    with t(2) assms(3) show False by simp
  qed
  then have "applyTargets ev ths 0 (filter isTarget ?S) (?S ! p) = ?S ! p"
    by (rule applyTargets_other)
  then show ?thesis
    using assms(2) by (simp add: startBatchGrading_students)
qed

text \<open>
  C5, as amended. A batch run calls the evaluation once for each student whose status
  is not \<open>done\<close> and who has at least one answer that is not blank, in list order, and
  for no other student.
\<close>

theorem batch_target_set:
  "a_apiCalls (startBatchGrading ev ths a) =
     a_apiCalls a @
       filter (\<lambda>s. s_status s \<noteq> Done \<and> list_ex (\<lambda>c. trim c \<noteq> []) (s_contents s))
         (a_students a)"
proof -
  have "isTarget = (\<lambda>s. s_status s \<noteq> Done \<and> list_ex (\<lambda>c. trim c \<noteq> []) (s_contents s))"
    by (rule ext) (simp add: isTarget_def)
  then show ?thesis
    using startBatchGrading_apiCalls[of ev ths a] by simp
qed

text \<open>
  C5 as stated fails: a student just added with the add-student button has the status
  \<open>idle\<close> and only empty answers, and a batch run makes no call for it.
\<close>

theorem batch_target_set_counterexample:
  "a_apiCalls (startBatchGrading (\<lambda>i s. Inl ApiFailure) [] (addStudent (ascii ''s1'') (initialApp (ascii ''c1'') None)))
     \<noteq> filter (\<lambda>s. s_status s \<noteq> Done) (a_students (addStudent (ascii ''s1'') (initialApp (ascii ''c1'') None)))"
  by (simp add: startBatchGrading_def addStudent_def initialApp_def isTarget_def trim_def)

lemma demoApp_distinct: "distinct (map s_id (a_students demoApp))"
  by (simp add: demoApp_def demoStudent_def ascii_def)

lemma demoApp_targets:
  "filter isTarget [demoStudent ''s1'' ''x'', demoStudent ''s2'' '' '', demoStudent ''s3'' ''y'']
     = [demoStudent ''s1'' ''x'', demoStudent ''s3'' ''y'']"
  by (simp add: demoStudent_def ascii_def isTarget_def trim_def isSpace_def)

lemma demoApp_students:
  "a_students demoApp = [demoStudent ''s1'' ''x'', demoStudent ''s2'' '' '', demoStudent ''s3'' ''y'']"
  by (simp add: demoApp_def)

lemma demoApp_s2_blank: "\<not> isTarget (demoStudent ''s2'' '' '')"
  by (simp add: demoStudent_def ascii_def isTarget_def trim_def isSpace_def)

text \<open>
  C4. With student ids pairwise distinct, a batch run calls the evaluation for every
  target whatever the outcomes of the earlier calls; a target whose call fails ends with
  the status \<open>error\<close> and the error message, and the toast is raised; a target whose
  call succeeds ends with the status \<open>done\<close>; a student that is no target is unchanged.
\<close>

theorem batch_error_handling:
  assumes "distinct (map s_id (a_students a))"
  shows "a_apiCalls (startBatchGrading ev ths a) = a_apiCalls a @ filter isTarget (a_students a)
    \<and> (\<forall>k p. k < length (filter isTarget (a_students a)) \<and> p < length (a_students a)
           \<and> a_students a ! p = filter isTarget (a_students a) ! k
           \<and> isl (ev k (filter isTarget (a_students a) ! k))
         \<longrightarrow> s_status (a_students (startBatchGrading ev ths a) ! p) = Error
           \<and> s_errorMsg (a_students (startBatchGrading ev ths a) ! p) = Some ENERGY_ERROR
           \<and> a_errorToast (startBatchGrading ev ths a) = Some PAUSED_TOAST)
    \<and> (\<forall>k p. k < length (filter isTarget (a_students a)) \<and> p < length (a_students a)
           \<and> a_students a ! p = filter isTarget (a_students a) ! k
           \<and> \<not> isl (ev k (filter isTarget (a_students a) ! k))
         \<longrightarrow> s_status (a_students (startBatchGrading ev ths a) ! p) = Done)
    \<and> (\<forall>p. p < length (a_students a) \<and> \<not> isTarget (a_students a ! p)
         \<longrightarrow> a_students (startBatchGrading ev ths a) ! p = a_students a ! p)"
proof (intro conjI allI impI)
  show "a_apiCalls (startBatchGrading ev ths a) = a_apiCalls a @ filter isTarget (a_students a)"
    by (rule startBatchGrading_apiCalls)
next
  fix k p
  assume h: "k < length (filter isTarget (a_students a)) \<and> p < length (a_students a)
           \<and> a_students a ! p = filter isTarget (a_students a) ! k
           \<and> isl (ev k (filter isTarget (a_students a) ! k))"
  then have out: "a_students (startBatchGrading ev ths a) ! p =
      stepStudent ev ths k (a_students a ! p) (a_students a ! p)"
    using assms by (intro batch_target_outcome) auto
  obtain e where e: "ev k (a_students a ! p) = Inl e"
    using h by (cases "ev k (a_students a ! p)") auto
  show "s_status (a_students (startBatchGrading ev ths a) ! p) = Error"
    by (simp add: out stepStudent_def e)
  show "s_errorMsg (a_students (startBatchGrading ev ths a) ! p) = Some ENERGY_ERROR"
    by (simp add: out stepStudent_def e)
  show "a_errorToast (startBatchGrading ev ths a) = Some PAUSED_TOAST"
    using h by (auto simp: startBatchGrading_errorToast)
next
  fix k p
  assume h: "k < length (filter isTarget (a_students a)) \<and> p < length (a_students a)
           \<and> a_students a ! p = filter isTarget (a_students a) ! k
           \<and> \<not> isl (ev k (filter isTarget (a_students a) ! k))"
  then have out: "a_students (startBatchGrading ev ths a) ! p =
      stepStudent ev ths k (a_students a ! p) (a_students a ! p)"
    using assms by (intro batch_target_outcome) auto
  obtain res where res: "ev k (a_students a ! p) = Inr res"
    using h by (cases "ev k (a_students a ! p)") auto
  show "s_status (a_students (startBatchGrading ev ths a) ! p) = Done"
    by (simp add: out stepStudent_def res)
next
  fix p
  assume "p < length (a_students a) \<and> \<not> isTarget (a_students a ! p)"
  then show "a_students (startBatchGrading ev ths a) ! p = a_students a ! p"
    using assms by (intro batch_nontarget) auto
qed

theorem batch_error_handling_witness:
  "distinct (map s_id (a_students demoApp))
   \<and> a_apiCalls (startBatchGrading demoEvaluator [] demoApp)
        = [demoStudent ''s1'' ''x'', demoStudent ''s3'' ''y'']
   \<and> s_status (a_students (startBatchGrading demoEvaluator [] demoApp) ! 0) = Error
   \<and> s_errorMsg (a_students (startBatchGrading demoEvaluator [] demoApp) ! 0) = Some ENERGY_ERROR
   \<and> a_errorToast (startBatchGrading demoEvaluator [] demoApp) = Some PAUSED_TOAST
   \<and> s_status (a_students (startBatchGrading demoEvaluator [] demoApp) ! 2) = Done
   \<and> a_students (startBatchGrading demoEvaluator [] demoApp) ! 1 = demoStudent ''s2'' '' ''"
proof -
  note inst = batch_error_handling[OF demoApp_distinct, of demoEvaluator "[]",
      unfolded demoApp_students demoApp_targets]
  have calls: "a_apiCalls (startBatchGrading demoEvaluator [] demoApp)
        = [demoStudent ''s1'' ''x'', demoStudent ''s3'' ''y'']"
    using inst[THEN conjunct1] by (simp add: demoApp_def initialApp_def)
  have failed: "s_status (a_students (startBatchGrading demoEvaluator [] demoApp) ! 0) = Error
      \<and> s_errorMsg (a_students (startBatchGrading demoEvaluator [] demoApp) ! 0) = Some ENERGY_ERROR
      \<and> a_errorToast (startBatchGrading demoEvaluator [] demoApp) = Some PAUSED_TOAST"
    using inst[THEN conjunct2, THEN conjunct1, rule_format, of 0 0]
    by (simp add: demoEvaluator_def)
  have passed: "s_status (a_students (startBatchGrading demoEvaluator [] demoApp) ! 2) = Done"
    using inst[THEN conjunct2, THEN conjunct2, THEN conjunct1, rule_format, of 1 2]
    by (simp add: demoEvaluator_def)
  have other: "a_students (startBatchGrading demoEvaluator [] demoApp) ! 1 = demoStudent ''s2'' '' ''"
    using inst[THEN conjunct2, THEN conjunct2, THEN conjunct2, rule_format, of 1]
    by (simp add: demoApp_s2_blank)
  show ?thesis
    using demoApp_distinct calls failed passed other by simp
qed

lemma gradeOne_relabelled: "gradeOne (relabelled l ev) ths i s a = gradeOne ev ths i s a"
  by (cases "ev i s") (simp_all add: gradeOne_def relabelled_def markDone_def)

lemma gradeLoop_relabelled: "gradeLoop (relabelled l ev) ths i ts a = gradeLoop ev ths i ts a"
  by (induction ts arbitrary: i a) (simp_all add: gradeOne_relabelled)

text \<open>
  C9. In a batch run on the thresholds derived from the criteria, with student ids
  pairwise distinct, a target whose call succeeds ends with the status \<open>done\<close>, the
  returned score and feedback, and the label that \<open>getLevelLabelFromScore\<close> gives that
  score; when no band brackets the score that label is the sentinel, and the status is
  \<open>done\<close> all the same; the \<open>levelLabel\<close> of the results has no influence on the run.
\<close>

theorem success_label_recomputed:
  assumes "distinct (map s_id (a_students a))"
    and "totalScoreThresholds (a_criteria a) = Inr ths"
  shows "(\<forall>k p res. k < length (filter isTarget (a_students a)) \<and> p < length (a_students a)
           \<and> a_students a ! p = filter isTarget (a_students a) ! k
           \<and> ev k (filter isTarget (a_students a) ! k) = Inr res
         \<longrightarrow> a_students (startBatchGrading ev ths a) ! p =
               (a_students a ! p)\<lparr>s_status := Done, s_score := Some (g_score res),
                  s_levelLabel := getLevelLabelFromScore ths (g_score res),
                  s_feedback := g_feedback res\<rparr>
           \<and> (list_all (\<lambda>t. \<not> brackets t (g_score res)) ths
                \<longrightarrow> s_levelLabel (a_students (startBatchGrading ev ths a) ! p) = UNDETERMINED
                  \<and> s_status (a_students (startBatchGrading ev ths a) ! p) = Done))
    \<and> (\<forall>l. startBatchGrading (relabelled l ev) ths a = startBatchGrading ev ths a)"
proof (intro conjI allI impI)
  fix k p res
  assume h: "k < length (filter isTarget (a_students a)) \<and> p < length (a_students a)
           \<and> a_students a ! p = filter isTarget (a_students a) ! k
           \<and> ev k (filter isTarget (a_students a) ! k) = Inr res"
  then have out: "a_students (startBatchGrading ev ths a) ! p =
      stepStudent ev ths k (a_students a ! p) (a_students a ! p)"
    using assms(1) by (intro batch_target_outcome) auto
  have res: "ev k (a_students a ! p) = Inr res"
    using h by simp
  show eq: "a_students (startBatchGrading ev ths a) ! p =
               (a_students a ! p)\<lparr>s_status := Done, s_score := Some (g_score res),
                  s_levelLabel := getLevelLabelFromScore ths (g_score res),
                  s_feedback := g_feedback res\<rparr>"
    by (simp add: out stepStudent_def res)
  assume nb: "list_all (\<lambda>t. \<not> brackets t (g_score res)) ths"
  then have "find (\<lambda>t. brackets t (g_score res)) ths = None"
    by (simp add: find_None_iff list_all_iff)
  then have "getLevelLabelFromScore ths (g_score res) = UNDETERMINED"
    by (simp add: getLevelLabelFromScore_def brackets_def)
  then show "s_levelLabel (a_students (startBatchGrading ev ths a) ! p) = UNDETERMINED"
    by (simp add: eq)
  show "s_status (a_students (startBatchGrading ev ths a) ! p) = Done"
    by (simp add: eq)
next
  fix l
  show "startBatchGrading (relabelled l ev) ths a = startBatchGrading ev ths a"
    by (simp add: startBatchGrading_def Let_def gradeLoop_relabelled)
qed

theorem success_label_recomputed_witness:
  "distinct (map s_id (a_students demoApp))
   \<and> totalScoreThresholds (a_criteria demoApp) = Inr (thresholdsSpec (a_criteria demoApp))
   \<and> a_students (startBatchGrading demoEvaluator (thresholdsSpec (a_criteria demoApp)) demoApp) ! 2
        = (demoStudent ''s3'' ''y'')\<lparr>s_status := Done, s_score := Some 85,
             s_levelLabel := SHORT_LABELS ! 1, s_feedback := ascii ''ok''\<rparr>
   \<and> s_levelLabel (a_students (startBatchGrading
          (\<lambda>i s. Inr \<lparr>g_score = 101, g_levelLabel = SHORT_LABELS ! 0, g_feedback = []\<rparr>)
          (thresholdsSpec (a_criteria demoApp)) demoApp) ! 0) = UNDETERMINED
   \<and> s_status (a_students (startBatchGrading
          (\<lambda>i s. Inr \<lparr>g_score = 101, g_levelLabel = SHORT_LABELS ! 0, g_feedback = []\<rparr>)
          (thresholdsSpec (a_criteria demoApp)) demoApp) ! 0) = Done"
proof -
  let ?ths = "thresholdsSpec (a_criteria demoApp)"
  let ?ev = "\<lambda>(i::nat) (s::student). (Inr \<lparr>g_score = 101, g_levelLabel = SHORT_LABELS ! 0,
      g_feedback = []\<rparr> :: error + gradingResult)"
  have five: "\<forall>c\<in>set (a_criteria demoApp). length (c_levels c) = 5"
    by (simp add: demoApp_def initialApp_def newCriterion_def DEFAULT_LEVELS_length)
  have safe: "safeScores (a_criteria demoApp)"
    by (simp add: safeScores_def weight_def finiteScore_def scoreOf_def demoApp_def initialApp_def
        newCriterion_def DEFAULT_LEVELS_def)
  have ths: "totalScoreThresholds (a_criteria demoApp) = Inr ?ths"
    using five safe by (rule thresholds_explicit)
  have val: "?ths =
     [\<lparr>th_label = SHORT_LABELS ! 0, th_floor = Fin 90, th_ceiling = Fin 100\<rparr>,
      \<lparr>th_label = SHORT_LABELS ! 1, th_floor = Fin 80, th_ceiling = Fin 89\<rparr>,
      \<lparr>th_label = SHORT_LABELS ! 2, th_floor = Fin 70, th_ceiling = Fin 79\<rparr>,
      \<lparr>th_label = SHORT_LABELS ! 3, th_floor = Fin 60, th_ceiling = Fin 69\<rparr>,
      \<lparr>th_label = SHORT_LABELS ! 4, th_floor = Fin 0, th_ceiling = Fin 59\<rparr>]"
    by (simp add: thresholdsSpec_def floorVectorSpec_def levelFloorSpec_def topScoreSumSpec_def
        scoreOf_def demoApp_def initialApp_def newCriterion_def DEFAULT_LEVELS_def upt_5)
  have l85: "getLevelLabelFromScore ?ths 85 = SHORT_LABELS ! 1"
    unfolding val by (simp add: getLevelLabelFromScore_def)
  have none101: "list_all (\<lambda>t. \<not> brackets t 101) ?ths"
    unfolding val by (simp add: brackets_def)
  note inst1 = success_label_recomputed[OF demoApp_distinct ths, of demoEvaluator,
      unfolded demoApp_students demoApp_targets]
  note inst2 = success_label_recomputed[OF demoApp_distinct ths, of ?ev,
      unfolded demoApp_students demoApp_targets]
  have a: "a_students (startBatchGrading demoEvaluator ?ths demoApp) ! 2
        = (demoStudent ''s3'' ''y'')\<lparr>s_status := Done, s_score := Some 85,
             s_levelLabel := SHORT_LABELS ! 1, s_feedback := ascii ''ok''\<rparr>"
    using inst1[THEN conjunct1, rule_format, of 1 2
        "\<lparr>g_score = 85, g_levelLabel = ascii ''AI'', g_feedback = ascii ''ok''\<rparr>"]
    by (simp add: demoEvaluator_def l85)
  have b: "s_levelLabel (a_students (startBatchGrading ?ev ?ths demoApp) ! 0) = UNDETERMINED
      \<and> s_status (a_students (startBatchGrading ?ev ?ths demoApp) ! 0) = Done"
  proof -
    let ?S = "[demoStudent ''s1'' ''x'', demoStudent ''s2'' '' '', demoStudent ''s3'' ''y'']"
    let ?T = "[demoStudent ''s1'' ''x'', demoStudent ''s3'' ''y'']"
    let ?res = "\<lparr>g_score = 101, g_levelLabel = SHORT_LABELS ! 0, g_feedback = []\<rparr>"
    have prem: "0 < length ?T \<and> 0 < length ?S \<and> ?S ! 0 = ?T ! 0 \<and> ?ev 0 (?T ! 0) = Inr ?res"
      by simp
    have none: "list_all (\<lambda>t. \<not> brackets t (g_score ?res)) ?ths"
      using none101 by simp
    from inst2[THEN conjunct1, rule_format, OF prem, THEN conjunct2, THEN mp, OF none]
    show ?thesis .
  qed
  show ?thesis
    using demoApp_distinct ths a b by simp
qed

text \<open>
  C10. One iteration of the loop whose call fails, with student ids pairwise distinct:
  the record with the target's id gets the status \<open>error\<close> and the error message and
  keeps every other field, its score, feedback and level label among them; every other
  record is unchanged.
\<close>

theorem failure_frame:
  assumes "ev i s = Inl e"
    and "distinct (map s_id (a_students a))"
    and "p < length (a_students a)"
    and "s_id (a_students a ! p) = s_id s"
  shows "length (a_students (gradeOne ev ths i s a)) = length (a_students a)
    \<and> a_students (gradeOne ev ths i s a) ! p =
         (a_students a ! p)\<lparr>s_status := Error, s_errorMsg := Some ENERGY_ERROR\<rparr>
    \<and> s_score (a_students (gradeOne ev ths i s a) ! p) = s_score (a_students a ! p)
    \<and> s_feedback (a_students (gradeOne ev ths i s a) ! p) = s_feedback (a_students a ! p)
    \<and> s_levelLabel (a_students (gradeOne ev ths i s a) ! p) = s_levelLabel (a_students a ! p)
    \<and> (\<forall>q. q < length (a_students a) \<and> q \<noteq> p
          \<longrightarrow> a_students (gradeOne ev ths i s a) ! q = a_students a ! q)"
proof -
  have at_p: "a_students (gradeOne ev ths i s a) ! p =
         (a_students a ! p)\<lparr>s_status := Error, s_errorMsg := Some ENERGY_ERROR\<rparr>"
    using assms(1,3,4) by (simp add: gradeOne_students stepStudent_def)
  have others: "\<forall>q. q < length (a_students a) \<and> q \<noteq> p
          \<longrightarrow> a_students (gradeOne ev ths i s a) ! q = a_students a ! q"
  proof (intro allI impI)
    fix q
    assume q: "q < length (a_students a) \<and> q \<noteq> p"
    have "(map s_id (a_students a) ! q = map s_id (a_students a) ! p) = (q = p)"
      using assms(2,3) q by (intro nth_eq_iff_index_eq) simp_all
    then have "s_id (a_students a ! q) \<noteq> s_id s"
      using assms(3,4) q by simp
    then show "a_students (gradeOne ev ths i s a) ! q = a_students a ! q"
      using q by (simp add: gradeOne_students)
  qed
  show ?thesis
    using others by (simp add: at_p) (simp add: gradeOne_students)
qed

theorem failure_frame_witness:
  "demoEvaluator 0 (demoStudent ''s1'' ''x'') = Inl ApiFailure
   \<and> distinct (map s_id (a_students demoApp))
   \<and> a_students (gradeOne demoEvaluator [] 0 (demoStudent ''s1'' ''x'') demoApp) ! 0
        = (demoStudent ''s1'' ''x'')\<lparr>s_status := Error, s_errorMsg := Some ENERGY_ERROR\<rparr>
   \<and> s_score (a_students (gradeOne demoEvaluator [] 0 (demoStudent ''s1'' ''x'') demoApp) ! 0) = None
   \<and> a_students (gradeOne demoEvaluator [] 0 (demoStudent ''s1'' ''x'') demoApp) ! 1
        = demoStudent ''s2'' '' ''
   \<and> a_students (gradeOne demoEvaluator [] 0 (demoStudent ''s1'' ''x'') demoApp) ! 2
        = demoStudent ''s3'' ''y''"
proof -
  have fails: "demoEvaluator 0 (demoStudent ''s1'' ''x'') = Inl ApiFailure"
    by (simp add: demoEvaluator_def)
  have p: "0 < length (a_students demoApp)"
    by (simp add: demoApp_students)
  have same: "s_id (a_students demoApp ! 0) = s_id (demoStudent ''s1'' ''x'')"
    by (simp add: demoApp_students)
  note inst = failure_frame[of demoEvaluator 0 "demoStudent ''s1'' ''x''" ApiFailure demoApp 0 "[]",
      OF fails demoApp_distinct p same, unfolded demoApp_students]
  have a: "a_students (gradeOne demoEvaluator [] 0 (demoStudent ''s1'' ''x'') demoApp) ! 0
        = (demoStudent ''s1'' ''x'')\<lparr>s_status := Error, s_errorMsg := Some ENERGY_ERROR\<rparr>"
    using inst by simp
  have b: "s_score (a_students (gradeOne demoEvaluator [] 0 (demoStudent ''s1'' ''x'') demoApp) ! 0) = None"
    using inst by (simp add: demoStudent_def)
  have c: "a_students (gradeOne demoEvaluator [] 0 (demoStudent ''s1'' ''x'') demoApp) ! 1
        = demoStudent ''s2'' '' ''"
    using inst[THEN conjunct2, THEN conjunct2, THEN conjunct2, THEN conjunct2, THEN conjunct2,
        rule_format, of 1] by simp
  have d: "a_students (gradeOne demoEvaluator [] 0 (demoStudent ''s1'' ''x'') demoApp) ! 2
        = demoStudent ''s3'' ''y''"
    using inst[THEN conjunct2, THEN conjunct2, THEN conjunct2, THEN conjunct2, THEN conjunct2,
        rule_format, of 2] by simp
  show ?thesis
    using fails demoApp_distinct a b c d by simp
qed

section \<open>Properties of the structured AI calls\<close>

text \<open>
  C6, as amended. Both calls fail when the call itself fails, when the response text is
  missing or empty, and when the text does not parse, with the parser's exception. When
  the text parses, \<open>evaluateStudentWork\<close> returns the parsed value;
  \<open>generateRubricCriteria\<close> returns it when it is an array and the empty array otherwise.
\<close>

theorem structured_call_results:
  "generateRubricCriteria P (Inl e) = Inl e
   \<and> evaluateStudentWork P (Inl e) = Inl e
   \<and> generateRubricCriteria P (Inr None) = Inl (JsError ''AI returned empty response'')
   \<and> generateRubricCriteria P (Inr (Some [])) = Inl (JsError ''AI returned empty response'')
   \<and> evaluateStudentWork P (Inr None) = Inl (JsError ''Empty AI response'')
   \<and> evaluateStudentWork P (Inr (Some [])) = Inl (JsError ''Empty AI response'')
   \<and> (text \<noteq> [] \<and> P text = Inl e \<longrightarrow>
         generateRubricCriteria P (Inr (Some text)) = Inl e
         \<and> evaluateStudentWork P (Inr (Some text)) = Inl e)
   \<and> (text \<noteq> [] \<and> P text = Inr v \<longrightarrow>
         generateRubricCriteria P (Inr (Some text)) = Inr (if isArray v then v else JArray [])
         \<and> evaluateStudentWork P (Inr (Some text)) = Inr v)"
  by (simp add: generateRubricCriteria_def evaluateStudentWork_def)

theorem structured_call_results_witness:
  "ascii ''{}'' \<noteq> [] \<and> demoParse (ascii ''{}'') = Inr (JObject [])
   \<and> generateRubricCriteria demoParse (Inr (Some (ascii ''{}''))) = Inr (JArray [])
   \<and> evaluateStudentWork demoParse (Inr (Some (ascii ''{}''))) = Inr (JObject [])
   \<and> ascii ''oops'' \<noteq> [] \<and> demoParse (ascii ''oops'') = Inl SyntaxError
   \<and> generateRubricCriteria demoParse (Inr (Some (ascii ''oops''))) = Inl SyntaxError
   \<and> evaluateStudentWork demoParse (Inr (Some (ascii ''oops''))) = Inl SyntaxError"
proof -
  have ne: "ascii ''{}'' \<noteq> []" "ascii ''oops'' \<noteq> []"
    by (simp_all add: ascii_def)
  have p1: "demoParse (ascii ''{}'') = Inr (JObject [])"
    by (simp add: demoParse_def ascii_def)
  have p2: "demoParse (ascii ''oops'') = Inl SyntaxError"
    by (simp add: demoParse_def ascii_def)
  note inst1 = structured_call_results[of demoParse SyntaxError "ascii ''{}''" "JObject []"]
  note inst2 = structured_call_results[of demoParse SyntaxError "ascii ''oops''" "JObject []"]
  have a: "generateRubricCriteria demoParse (Inr (Some (ascii ''{}''))) = Inr (JArray [])
      \<and> evaluateStudentWork demoParse (Inr (Some (ascii ''{}''))) = Inr (JObject [])"
    using inst1 ne(1) p1 by simp
  have b: "generateRubricCriteria demoParse (Inr (Some (ascii ''oops''))) = Inl SyntaxError
      \<and> evaluateStudentWork demoParse (Inr (Some (ascii ''oops''))) = Inl SyntaxError"
    using inst2 ne(2) p2 by simp
  show ?thesis
    using ne p1 p2 a b by simp
qed

text \<open>
  C6 as stated fails for \<open>generateRubricCriteria\<close>: the text \<open>{}\<close> parses, to the empty
  object, and the call returns the empty array, not the parsed value.
\<close>

theorem structured_call_results_counterexample:
  "demoParse (ascii ''{}'') = Inr (JObject [])
   \<and> generateRubricCriteria demoParse (Inr (Some (ascii ''{}''))) \<noteq> Inr (JObject [])"
  by (simp add: generateRubricCriteria_def demoParse_def ascii_def)

section \<open>Properties of templates and criteria\<close>

text \<open>
  What the three operations on the template list leave behind, each taken alone: after
  mounting, after saving a template and after deleting one, the slot holds the
  serialization of the template list of the state.
\<close>

lemma slot_after_mount_save_delete:
  "a_storage (mount P W a) = Some (W (a_templates (mount P W a)))
   \<and> a_templates (mount P W a) =
       (case a_storage a of
          None \<Rightarrow> a_templates a
        | Some saved \<Rightarrow>
            if saved = [] then a_templates a
            else (case P saved of None \<Rightarrow> a_templates a | Some ts \<Rightarrow> ts))
   \<and> a_storage (handle W (SaveTemplate uuid now) a)
       = Some (W (a_templates (handle W (SaveTemplate uuid now) a)))
   \<and> a_templates (handle W (SaveTemplate uuid now) a) =
       \<lparr>t_id = uuid, t_name = a_saveNameInput a, t_tasks = a_tasks a,
         t_criteria = a_criteria a, t_timestamp = now\<rparr> # a_templates a
   \<and> a_storage (handle W (DeleteTemplate tid) a)
       = Some (W (a_templates (handle W (DeleteTemplate tid) a)))
   \<and> a_templates (handle W (DeleteTemplate tid) a) = filter (\<lambda>x. t_id x \<noteq> tid) (a_templates a)"
  by (simp add: mount_def persistTemplates_def Let_def split: option.split)

text \<open>
  A session keeps the slot in step with the template list as long as no write into a
  criterion reaches a criterion that a template holds.
\<close>

lemma handle_keeps_slot:
  assumes "a_storage a = Some (W (a_templates a))" and "\<not> writesShared e"
  shows "a_storage (handle W e a) = Some (W (a_templates (handle W e a)))"
  using assms
  by (cases e) (simp_all add: persistTemplates_def writeCriterion_def split: option.split)

lemma run_keeps_slot:
  assumes "a_storage a = Some (W (a_templates a))" and "\<forall>e\<in>set es. \<not> writesShared e"
  shows "a_storage (run W es a) = Some (W (a_templates (run W es a)))"
  using assms
proof (induction es arbitrary: a)
  case Nil
  then show ?case by simp
next
  case (Cons e es)
  have "a_storage (handle W e a) = Some (W (a_templates (handle W e a)))"
    using Cons.prems by (intro handle_keeps_slot) simp_all
  then show ?case
    using Cons.prems(2) by (simp add: Cons.IH)
qed

text \<open>
  C7, that the slot holds the serialization of the current template list after every
  change of the list, fails on the code. The component mounts on an absent slot, the
  criteria are saved as a template, and a focus is typed into the first criterion, an
  object the saved template holds too: the template list of the state then has the new
  focus, and the slot still has the serialization of the list with the old one.
\<close>

theorem shared_edit_leaves_slot_stale:
  "a_templates (run W [SaveTemplate (ascii ''t1'') 1, EditFocus 0 (ascii ''abc'') [(0, 0)]]
        (mount P W (initialApp (ascii ''c1'') None)))
     = [\<lparr>t_id = ascii ''t1'', t_name = [], t_tasks = [[]],
         t_criteria = [(newCriterion (ascii ''c1''))\<lparr>c_focus := ascii ''abc''\<rparr>], t_timestamp = 1\<rparr>]
   \<and> a_storage (run W [SaveTemplate (ascii ''t1'') 1, EditFocus 0 (ascii ''abc'') [(0, 0)]]
        (mount P W (initialApp (ascii ''c1'') None)))
     = Some (W [\<lparr>t_id = ascii ''t1'', t_name = [], t_tasks = [[]],
                 t_criteria = [newCriterion (ascii ''c1'')], t_timestamp = 1\<rparr>])
   \<and> [\<lparr>t_id = ascii ''t1'', t_name = [], t_tasks = [[]],
         t_criteria = [(newCriterion (ascii ''c1''))\<lparr>c_focus := ascii ''abc''\<rparr>], t_timestamp = 1\<rparr>]
     \<noteq> [\<lparr>t_id = ascii ''t1'', t_name = [], t_tasks = [[]],
          t_criteria = [newCriterion (ascii ''c1'')], t_timestamp = (1::nat)\<rparr>]"
proof -
  let ?a = "run W [SaveTemplate (ascii ''t1'') 1, EditFocus 0 (ascii ''abc'') [(0, 0)]]
        (mount P W (initialApp (ascii ''c1'') None))"
  have mounted: "mount P W (initialApp (ascii ''c1'') None)
      = (initialApp (ascii ''c1'') None)\<lparr>a_storage := Some (W [])\<rparr>"
    by (simp add: mount_def persistTemplates_def initialApp_def)
  have list: "a_templates ?a
     = [\<lparr>t_id = ascii ''t1'', t_name = [], t_tasks = [[]],
         t_criteria = [(newCriterion (ascii ''c1''))\<lparr>c_focus := ascii ''abc''\<rparr>], t_timestamp = 1\<rparr>]"
    unfolding mounted
    by (simp add: persistTemplates_def initialApp_def writeCriterion_def writeShared_def)
  have slot: "a_storage ?a
     = Some (W [\<lparr>t_id = ascii ''t1'', t_name = [], t_tasks = [[]],
                 t_criteria = [newCriterion (ascii ''c1'')], t_timestamp = 1\<rparr>])"
    unfolding mounted
    by (simp add: persistTemplates_def initialApp_def writeCriterion_def writeShared_def)
  have differ: "(newCriterion (ascii ''c1''))\<lparr>c_focus := ascii ''abc''\<rparr> \<noteq> newCriterion (ascii ''c1'')"
    by (simp add: newCriterion_def ascii_def)
  show ?thesis
    using list slot differ by simp
qed

lemma newCriterion_fiveLevels: "fiveLevels (newCriterion uuid)"
  by (simp add: fiveLevels_def newCriterion_def DEFAULT_LEVELS_length)

lemma applyTexts_length: "length (applyTexts res lvls) = length lvls"
  by (induction res lvls rule: applyTexts.induct) simp_all

lemma writeLevel_length: "length (c_levels (writeLevel lIdx g c)) = length (c_levels c)"
  by (simp add: writeLevel_def)

lemma map_update_same:
  "g (f (xs ! i)) = g (xs ! i) \<Longrightarrow> map g (xs[i := f (xs ! i)]) = map g xs"
proof (cases "i < length xs")
  case True
  assume "g (f (xs ! i)) = g (xs ! i)"
  with True show ?thesis
    by (simp add: map_update list_update_same_conv)
next
  case False
  then have "length xs \<le> i" by simp
  then have "xs[i := f (xs ! i)] = xs" by (rule list_update_beyond)
  then show ?thesis by simp
qed

lemma writeShared_counts:
  assumes "\<And>c. length (c_levels (f c)) = length (c_levels c)"
  shows "map (\<lambda>t. map (\<lambda>c. length (c_levels c)) (t_criteria t)) (writeShared f pos ts)
     = map (\<lambda>t. map (\<lambda>c. length (c_levels c)) (t_criteria t)) ts"
proof (cases pos)
  case (Pair ti ci)
  let ?g = "\<lambda>c. length (c_levels c)"
  let ?G = "\<lambda>t. map ?g (t_criteria t)"
  let ?f' = "\<lambda>t. t\<lparr>t_criteria := (t_criteria t)[ci := f (t_criteria t ! ci)]\<rparr>"
  have inner: "?G (?f' (ts ! ti)) = ?G (ts ! ti)"
    using map_update_same[of ?g f "t_criteria (ts ! ti)" ci] by (simp add: assms)
  have "map ?G (ts[ti := ?f' (ts ! ti)]) = map ?G ts"
    using inner by (rule map_update_same)
  then show ?thesis
    by (simp add: writeShared_def Pair)
qed

lemma foldr_writeShared_counts:
  assumes "\<And>c. length (c_levels (f c)) = length (c_levels c)"
  shows "map (\<lambda>t. map (\<lambda>c. length (c_levels c)) (t_criteria t)) (foldr (writeShared f) shared ts)
     = map (\<lambda>t. map (\<lambda>c. length (c_levels c)) (t_criteria t)) ts"
  by (induction shared) (simp_all add: writeShared_counts[OF assms])

lemma writeCriterion_counts:
  assumes "\<And>c. length (c_levels (f c)) = length (c_levels c)"
  shows "levelCounts (writeCriterion cIdx f shared a) = levelCounts a"
  by (simp add: levelCounts_def writeCriterion_def foldr_writeShared_counts[OF assms]
      map_update assms list_update_same_conv)

lemma handle_write_counts: "isWrite e \<Longrightarrow> levelCounts (handle W e a) = levelCounts a"
  by (cases e) (simp_all add: writeCriterion_counts writeLevel_length applyTexts_length)

lemma fiveLevelsEverywhere_counts:
  "fiveLevelsEverywhere a \<longleftrightarrow>
     list_all (\<lambda>n. n = 5) (fst (levelCounts a)) \<and> list_all (list_all (\<lambda>n. n = 5)) (snd (levelCounts a))"
  by (simp add: fiveLevelsEverywhere_def templatesFiveLevels_def levelCounts_def fiveLevels_def
      list_all_iff)

lemma find_templates_fiveLevels:
  "templatesFiveLevels ts \<Longrightarrow> find Q ts = Some t \<Longrightarrow> list_all fiveLevels (t_criteria t)"
  by (auto simp: templatesFiveLevels_def list_all_iff find_Some_iff)

lemma handle_fiveLevels:
  assumes "fiveLevelsEverywhere a"
  shows "fiveLevelsEverywhere (handle W e a)"
proof (cases "isWrite e")
  case True
  then show ?thesis
    using assms by (simp add: fiveLevelsEverywhere_counts handle_write_counts)
next
  case False
  have cs: "list_all fiveLevels (a_criteria a)" and ts: "templatesFiveLevels (a_templates a)"
    using assms by (simp_all add: fiveLevelsEverywhere_def)
  show ?thesis
  proof (cases e)
    case (SelectTemplate v uuid)
    show ?thesis
    proof (cases "find (\<lambda>x. t_id x = v) (a_templates a)")
      case None
      then show ?thesis
        using cs ts by (simp add: SelectTemplate fiveLevelsEverywhere_def newCriterion_fiveLevels)
    next
      case (Some t)
      then have "list_all fiveLevels (t_criteria t)"
        using ts by (rule find_templates_fiveLevels[rotated])
      then show ?thesis
        using cs ts Some
        by (simp add: SelectTemplate fiveLevelsEverywhere_def newCriterion_fiveLevels)
    qed
  next
    case (AddCriterion uuid)
    then show ?thesis
      using cs ts by (simp add: fiveLevelsEverywhere_def newCriterion_fiveLevels)
  next
    case (RemoveCriterion cid)
    then show ?thesis
      using cs ts by (simp add: fiveLevelsEverywhere_def list_all_iff)
  next
    case (ReadTemplate ti)
    show ?thesis
    proof (cases "ti < length (a_templates a)")
      case True
      then have "list_all fiveLevels (t_criteria (a_templates a ! ti))"
        using ts by (simp add: templatesFiveLevels_def list_all_length)
      then show ?thesis
        using ts True by (simp add: ReadTemplate fiveLevelsEverywhere_def)
    next
      case False
      then show ?thesis
        using assms by (simp add: ReadTemplate)
    qed
  next
    case (SaveTemplate uuid now)
    then show ?thesis
      using cs ts
      by (simp add: fiveLevelsEverywhere_def templatesFiveLevels_def persistTemplates_def)
  next
    case (DeleteTemplate tid)
    then show ?thesis
      using cs ts
      by (auto simp: fiveLevelsEverywhere_def templatesFiveLevels_def persistTemplates_def
          list_all_iff)
  qed (use False in simp_all)
qed

lemma run_fiveLevels: "fiveLevelsEverywhere a \<Longrightarrow> fiveLevelsEverywhere (run W es a)"
  by (induction es arbitrary: a) (simp_all add: handle_fiveLevels)

lemma mount_fiveLevels:
  assumes "case stored of None \<Rightarrow> True
           | Some saved \<Rightarrow> (case P saved of None \<Rightarrow> True | Some ts \<Rightarrow> templatesFiveLevels ts)"
  shows "fiveLevelsEverywhere (mount P W (initialApp uuid stored))"
  using assms
  by (auto simp: mount_def persistTemplates_def initialApp_def fiveLevelsEverywhere_def
      templatesFiveLevels_def newCriterion_fiveLevels Let_def split: option.splits)

text \<open>
  C8. From a slot that is absent, does not parse, or holds templates whose criteria all
  have five levels, every state the mounted component reaches by its handlers has five
  levels in every criterion, of the criteria list and of every template; and a handler
  that writes into a criterion leaves the number of levels of every criterion as it was.
\<close>

theorem five_levels_invariant:
  assumes "case stored of None \<Rightarrow> True
           | Some saved \<Rightarrow> (case P saved of None \<Rightarrow> True | Some ts \<Rightarrow> templatesFiveLevels ts)"
  shows "fiveLevelsEverywhere (run W es (mount P W (initialApp uuid stored)))
    \<and> (\<forall>e a. isWrite e \<longrightarrow> levelCounts (handle W e a) = levelCounts a)"
  using mount_fiveLevels[OF assms] by (simp add: run_fiveLevels handle_write_counts)

theorem five_levels_invariant_witness:
  "templatesFiveLevels [demoTemplate]
   \<and> fiveLevelsEverywhere
        (run (\<lambda>ts. ascii ''json'') demoSession
           (mount (\<lambda>saved. Some [demoTemplate]) (\<lambda>ts. ascii ''json'')
              (initialApp (ascii ''c1'') (Some (ascii ''saved'')))))
   \<and> levelCounts (handle (\<lambda>ts. ascii ''json'') (EditScore 0 0 (Fin 50) [])
        (initialApp (ascii ''c1'') None)) = ([5], [])"
proof -
  have ok: "templatesFiveLevels [demoTemplate]"
    by (simp add: templatesFiveLevels_def demoTemplate_def newCriterion_fiveLevels)
  have hyp: "case Some (ascii ''saved'') of None \<Rightarrow> True
      | Some saved \<Rightarrow> (case (\<lambda>saved. Some [demoTemplate]) saved of
                         None \<Rightarrow> True | Some ts \<Rightarrow> templatesFiveLevels ts)"
    using ok by simp
  note inst = five_levels_invariant[where stored = "Some (ascii ''saved'')"
      and P = "\<lambda>saved. Some [demoTemplate]" and W = "\<lambda>ts. ascii ''json''"
      and es = demoSession and uuid = "ascii ''c1''", OF hyp]
  have w: "isWrite (EditScore 0 0 (Fin 50) [])" by simp
  have "levelCounts (initialApp (ascii ''c1'') None) = ([5], [])"
    by (simp add: levelCounts_def initialApp_def newCriterion_def DEFAULT_LEVELS_length)
  then have counts: "levelCounts (handle (\<lambda>ts. ascii ''json'') (EditScore 0 0 (Fin 50) [])
        (initialApp (ascii ''c1'') None)) = ([5], [])"
    using inst[THEN conjunct2, rule_format, OF w, of "initialApp (ascii ''c1'') None"]
    by simp
  show ?thesis
    using ok inst[THEN conjunct1] counts by simp
qed

section \<open>Properties of split, join and the CSV handlers\<close>

lemma jsSplit_not_Nil: "sep \<noteq> [] \<Longrightarrow> jsSplit sep s \<noteq> []"
  by (induction sep s rule: jsSplit.induct) (auto split: list.splits)

lemma jsSplit_no_sep: "c \<notin> set a \<Longrightarrow> jsSplit [c] a = [a]"
  by (induction a) auto

lemma jsSplit_append:
  "c \<notin> set a \<Longrightarrow> jsSplit [c] (a @ c # b) = a # jsSplit [c] b"
  by (induction a) auto

lemma jsSplit_join_prefix:
  assumes "\<forall>x\<in>set xs. c \<notin> set x" "ys \<noteq> []"
  shows "jsSplit [c] (jsJoin [c] (xs @ ys)) = xs @ jsSplit [c] (jsJoin [c] ys)"
  using assms
proof (induction xs)
  case Nil
  then show ?case by simp
next
  case (Cons x xs)
  obtain z zs where z: "xs @ ys = z # zs"
    using Cons.prems(2) by (cases "xs @ ys") auto
  have "jsSplit [c] (jsJoin [c] ((x # xs) @ ys)) = jsSplit [c] (x @ c # jsJoin [c] (xs @ ys))"
    by (simp add: z)
  also have "\<dots> = x # jsSplit [c] (jsJoin [c] (xs @ ys))"
    using Cons.prems(1) by (intro jsSplit_append) simp
  also have "\<dots> = x # xs @ jsSplit [c] (jsJoin [c] ys)"
    using Cons.prems by (simp add: Cons.IH)
  finally show ?case by simp
qed

lemma jsSplit_join:
  assumes "xs \<noteq> []" "\<forall>x\<in>set xs. c \<notin> set x"
  shows "jsSplit [c] (jsJoin [c] xs) = xs"
proof -
  obtain ys y where xs: "xs = ys @ [y]"
    using assms(1) by (cases xs rule: rev_cases) auto
  have "jsSplit [c] (jsJoin [c] (ys @ [y])) = ys @ jsSplit [c] (jsJoin [c] [y])"
    using assms(2) xs by (intro jsSplit_join_prefix) auto
  then show ?thesis
    using assms(2) xs by (simp add: jsSplit_no_sep)
qed

lemma set_jsJoin: "set (jsJoin sep xs) \<subseteq> set sep \<union> \<Union> (set ` set xs)"
  by (induction sep xs rule: jsJoin.induct) auto

lemma notin_jsJoin:
  "c \<notin> set sep \<Longrightarrow> \<forall>x\<in>set xs. c \<notin> set x \<Longrightarrow> c \<notin> set (jsJoin sep xs)"
  using set_jsJoin[of sep xs] by auto

lemma digit_not_sep:
  assumes "n < 10"
  shows "(0x30 + of_nat n :: jschar) \<noteq> newline \<and> (0x30 + of_nat n :: jschar) \<noteq> comma"
proof -
  have "n \<in> {0, 1, 2, 3, 4, 5, 6, 7, 8, 9}"
    using assms by auto
  then show ?thesis
    by (auto simp: newline_def comma_def)
qed

lemma showNat_no_sep: "newline \<notin> set (showNat n) \<and> comma \<notin> set (showNat n)"
proof (induction n rule: showNat.induct)
  case (1 n)
  show ?case
  proof (cases "n < 10")
    case True
    then show ?thesis
      using digit_not_sep[of n] by (subst showNat.simps, subst showNat.simps) auto
  next
    case False
    have "n mod 10 < 10" by simp
    then show ?thesis
      using False 1 digit_not_sep[of "n mod 10"]
      by (subst showNat.simps, subst showNat.simps) auto
  qed
qed

lemma quoted_no_sep:
  "c \<noteq> dquote \<Longrightarrow> c \<notin> set x \<Longrightarrow> c \<notin> set (quoted x)"
  by (auto simp: quoted_def escapeQuotes_def split: if_splits)

lemma csvHeader_no_newline: "newline \<notin> set (csvHeader tasks)"
  unfolding csvHeader_def
  using showNat_no_sep by (intro notin_jsJoin) (auto simp: newline_def comma_def)

lemma csvRow_no_newline:
  assumes "newline \<notin> set (s_name s)" "\<forall>c\<in>set (s_contents s). newline \<notin> set c"
    and "newline \<notin> set (showScore numberToString (s_score s))"
    and "newline \<notin> set (s_levelLabel s)" "newline \<notin> set (s_feedback s)"
  shows "newline \<notin> set (csvRow numberToString s)"
  unfolding csvRow_def
proof (intro notin_jsJoin)
  show "newline \<notin> set [comma]" by (simp add: newline_def comma_def)
  have q: "newline \<noteq> dquote" by (simp add: newline_def dquote_def)
  show "\<forall>x\<in>set ([s_name s] @ map quoted (s_contents s)
           @ [showScore numberToString (s_score s), s_levelLabel s, quoted (s_feedback s)]).
          newline \<notin> set x"
    using assms quoted_no_sep[OF q] by auto
qed

lemma csvRow_split_name:
  assumes "comma \<notin> set (s_name s)"
  shows "\<exists>rest. jsSplit [comma] (csvRow numberToString s) = s_name s # rest"
proof -
  have "jsSplit [comma] (jsJoin [comma] ([s_name s] @ (map quoted (s_contents s)
           @ [showScore numberToString (s_score s), s_levelLabel s, quoted (s_feedback s)])))
     = [s_name s] @ jsSplit [comma] (jsJoin [comma] (map quoted (s_contents s)
           @ [showScore numberToString (s_score s), s_levelLabel s, quoted (s_feedback s)]))"
    using assms by (intro jsSplit_join_prefix) auto
  then show ?thesis
    by (simp add: csvRow_def)
qed

lemma csvRow_split:
  assumes "comma \<notin> set (s_name s)" "\<forall>c\<in>set (s_contents s). comma \<notin> set c"
  shows "\<exists>rest. jsSplit [comma] (csvRow numberToString s)
           = s_name s # map quoted (s_contents s) @ rest"
proof -
  have q: "comma \<noteq> dquote" by (simp add: comma_def dquote_def)
  have "jsSplit [comma] (jsJoin [comma] (([s_name s] @ map quoted (s_contents s))
           @ [showScore numberToString (s_score s), s_levelLabel s, quoted (s_feedback s)]))
     = ([s_name s] @ map quoted (s_contents s))
        @ jsSplit [comma] (jsJoin [comma]
            [showScore numberToString (s_score s), s_levelLabel s, quoted (s_feedback s)])"
    using assms quoted_no_sep[OF q] by (intro jsSplit_join_prefix) auto
  then show ?thesis
    by (simp add: csvRow_def)
qed

lemma importRow_of_split:
  assumes "r = name # cs @ rest" "length cs = length tasks"
  shows "s_name (importRow tasks uuid r) = name \<and> s_contents (importRow tasks uuid r) = cs"
proof -
  have "map (\<lambda>i. cell r (i + 1)) [0 ..< length tasks] = cs"
    using assms by (intro nth_equalityI) (auto simp: cell_def nth_append)
  then show ?thesis
    by (simp add: importRow_def assms(1))
qed

lemma importCsv_rows:
  "map s_name (importCsv uuidv4 tasks text)
     = map (\<lambda>r. s_name (importRow tasks [] r)) (drop 1 (map (jsSplit [comma]) (jsSplit [newline] text)))
   \<and> map s_contents (importCsv uuidv4 tasks text)
     = map (\<lambda>r. s_contents (importRow tasks [] r)) (drop 1 (map (jsSplit [comma]) (jsSplit [newline] text)))"
proof -
  have "map (\<lambda>(k, r). f (importRow tasks (uuidv4 k) r)) (enumerate 0 rows)
      = map (\<lambda>r. f (importRow tasks [] r)) rows"
    if "\<And>u r. f (importRow tasks u r) = f (importRow tasks [] r)" for f :: "student \<Rightarrow> 'b" and rows
    using that by (induction rows rule: rev_induct) (simp_all add: enumerate_append_eq)
  note this[of s_name] this[of s_contents]
  then show ?thesis
    by (simp add: importCsv_def Let_def comp_def case_prod_unfold importRow_def)
qed

lemma exportCsv_lines:
  assumes "students \<noteq> []"
    and "\<forall>s\<in>set students. newline \<notin> set (csvRow numberToString s)"
  shows "drop 1 (jsSplit [newline] (exportCsv numberToString tasks students))
           = map (csvRow numberToString) students"
proof -
  have "newline \<notin> set ([BOM] @ csvHeader tasks)"
    using csvHeader_no_newline by (simp add: BOM_def newline_def)
  then have "jsSplit [newline] (([BOM] @ csvHeader tasks)
                 @ newline # jsJoin [newline] (map (csvRow numberToString) students))
      = ([BOM] @ csvHeader tasks)
          # jsSplit [newline] (jsJoin [newline] (map (csvRow numberToString) students))"
    by (rule jsSplit_append)
  moreover have "jsSplit [newline] (jsJoin [newline] (map (csvRow numberToString) students))
      = map (csvRow numberToString) students"
    using assms by (intro jsSplit_join) auto
  ultimately show ?thesis
    by (simp add: exportCsv_def)
qed

text \<open>
  The rows of the exported text come back one for one when no field holds a line feed.
\<close>

lemma exported_rows:
  assumes "students \<noteq> []"
    and "\<forall>s\<in>set students. newline \<notin> set (s_name s)"
    and "\<forall>s\<in>set students. \<forall>c\<in>set (s_contents s). newline \<notin> set c"
    and "\<forall>s\<in>set students. newline \<notin> set (showScore numberToString (s_score s))"
    and "\<forall>s\<in>set students. newline \<notin> set (s_levelLabel s) \<and> newline \<notin> set (s_feedback s)"
  shows "drop 1 (map (jsSplit [comma]) (jsSplit [newline] (exportCsv numberToString tasks students)))
      = map (\<lambda>s. jsSplit [comma] (csvRow numberToString s)) students"
proof -
  have nl: "\<forall>s\<in>set students. newline \<notin> set (csvRow numberToString s)"
  proof
    fix s
    assume "s \<in> set students"
    then show "newline \<notin> set (csvRow numberToString s)"
      using assms(2,3,4,5) by (intro csvRow_no_newline) auto
  qed
  show ?thesis
    using exportCsv_lines[OF assms(1) nl, of tasks] by (simp add: drop_map)
qed

text \<open>
  The names half of the round trip: for a non-empty student list with no line feed in
  any field and no comma in any name, the import gives the students in the same order
  with the same names, whatever the tasks of the importing state are.
\<close>

lemma csv_names_round_trip:
  assumes "students \<noteq> []"
    and "\<forall>s\<in>set students. comma \<notin> set (s_name s) \<and> newline \<notin> set (s_name s)"
    and "\<forall>s\<in>set students. \<forall>c\<in>set (s_contents s). newline \<notin> set c"
    and "\<forall>s\<in>set students. newline \<notin> set (showScore numberToString (s_score s))"
    and "\<forall>s\<in>set students. newline \<notin> set (s_levelLabel s) \<and> newline \<notin> set (s_feedback s)"
  shows "map s_name (importCsv uuidv4 tasks' (exportCsv numberToString tasks students))
           = map s_name students"
proof -
  have rows: "drop 1 (map (jsSplit [comma])
                 (jsSplit [newline] (exportCsv numberToString tasks students)))
      = map (\<lambda>s. jsSplit [comma] (csvRow numberToString s)) students"
    using assms by (intro exported_rows) auto
  have each: "s_name (importRow tasks' [] (jsSplit [comma] (csvRow numberToString s))) = s_name s"
    if "s \<in> set students" for s
  proof -
    have "comma \<notin> set (s_name s)"
      using assms(2) that by auto
    from csvRow_split_name[OF this]
    obtain rest where "jsSplit [comma] (csvRow numberToString s) = s_name s # rest"
      by blast
    then show ?thesis
      by (simp add: importRow_def)
  qed
  note imported = importCsv_rows[of uuidv4 tasks' "exportCsv numberToString tasks students",
      unfolded rows]
  show ?thesis
    using each by (simp add: imported[THEN conjunct1] comp_def)
qed

text \<open>
  The answers half: where the answers hold no comma either and every student has one
  answer per task, every answer comes back as it was written to the file, between
  double quotes and with its own double quotes doubled.
\<close>

lemma csv_answers_come_back_quoted:
  assumes "students \<noteq> []"
    and "\<forall>s\<in>set students. length (s_contents s) = length tasks"
    and "\<forall>s\<in>set students. comma \<notin> set (s_name s) \<and> newline \<notin> set (s_name s)"
    and "\<forall>s\<in>set students. \<forall>c\<in>set (s_contents s). comma \<notin> set c \<and> newline \<notin> set c"
    and "\<forall>s\<in>set students. newline \<notin> set (showScore numberToString (s_score s))"
    and "\<forall>s\<in>set students. newline \<notin> set (s_levelLabel s) \<and> newline \<notin> set (s_feedback s)"
  shows "map s_contents (importCsv uuidv4 tasks (exportCsv numberToString tasks students))
        = map (\<lambda>s. map quoted (s_contents s)) students"
proof -
  have rows: "drop 1 (map (jsSplit [comma])
                 (jsSplit [newline] (exportCsv numberToString tasks students)))
      = map (\<lambda>s. jsSplit [comma] (csvRow numberToString s)) students"
    using assms(1,3,4,5,6) by (intro exported_rows) auto
  have each: "s_contents (importRow tasks [] (jsSplit [comma] (csvRow numberToString s)))
      = map quoted (s_contents s)"
    if "s \<in> set students" for s
  proof -
    have a: "comma \<notin> set (s_name s)"
      using assms(3) that by auto
    have b: "\<forall>c\<in>set (s_contents s). comma \<notin> set c"
      using assms(4) that by auto
    from csvRow_split[OF a b]
    obtain rest where r: "jsSplit [comma] (csvRow numberToString s)
        = s_name s # map quoted (s_contents s) @ rest"
      by blast
    have "length (map quoted (s_contents s)) = length tasks"
      using assms(2) that by simp
    from importRow_of_split[OF r this] show ?thesis
      by simp
  qed
  note imported = importCsv_rows[of uuidv4 tasks "exportCsv numberToString tasks students",
      unfolded rows]
  show ?thesis
    using each by (simp add: imported[THEN conjunct2] comp_def)
qed

text \<open>
  C1, that importing the exported text reproduces the name and the answers of every
  student, fails on the code. With one task and the one student \<open>s1\<close> whose answer is
  \<open>x\<close> and who has no score yet, the exported text is the header and the row
  \<open>s1,"x",,,""\<close>; importing it gives one student with the name \<open>s1\<close> and the answer
  \<open>"x"\<close>, the double quotes included, where the list exported has the answer \<open>x\<close>.
\<close>

theorem csv_export_import_keeps_quotes:
  "exportCsv numberToString [[]] [demoStudent ''s1'' ''x'']
     = [0xFEFF, 0x59D3, 0x540D, 0x2C, 0x984C, 0x31, 0x2C, 0x5F97, 0x5206, 0x2C, 0x7B49, 0x7D1A,
        0x2C, 0x8A55, 0x8A9E, 0x0A] @ ascii ''s1,'' @ [0x22, 0x78, 0x22] @ ascii '',,,'' @ [0x22, 0x22]
   \<and> map s_name (importCsv uuidv4 [[]] (exportCsv numberToString [[]] [demoStudent ''s1'' ''x'']))
     = [ascii ''s1'']
   \<and> map s_contents (importCsv uuidv4 [[]] (exportCsv numberToString [[]] [demoStudent ''s1'' ''x'']))
     = [[[0x22, 0x78, 0x22]]]
   \<and> map s_contents [demoStudent ''s1'' ''x''] = [[[0x78]]]
   \<and> map s_contents (importCsv uuidv4 [[]] (exportCsv numberToString [[]] [demoStudent ''s1'' ''x'']))
     \<noteq> map s_contents [demoStudent ''s1'' ''x'']"
proof -
  have exported: "exportCsv numberToString [[]] [demoStudent ''s1'' ''x'']
      = [0xFEFF, 0x59D3, 0x540D, 0x2C, 0x984C, 0x31, 0x2C, 0x5F97, 0x5206, 0x2C, 0x7B49, 0x7D1A,
         0x2C, 0x8A55, 0x8A9E, 0x0A, 0x73, 0x31, 0x2C, 0x22, 0x78, 0x22, 0x2C, 0x2C, 0x2C, 0x22, 0x22]"
    by (simp add: exportCsv_def csvHeader_def csvRow_def demoStudent_def showScore_def quoted_def
        escapeQuotes_def BOM_def comma_def newline_def dquote_def ascii_def showNat.simps)
  have names: "map s_name (importCsv uuidv4 [[]] (exportCsv numberToString [[]] [demoStudent ''s1'' ''x'']))
     = [ascii ''s1'']"
    unfolding exported
    by (simp add: importCsv_def importRow_def cell_def comma_def newline_def enumerate_eq_zip
        ascii_def)
  have answers: "map s_contents (importCsv uuidv4 [[]] (exportCsv numberToString [[]] [demoStudent ''s1'' ''x'']))
     = [[[0x22, 0x78, 0x22]]]"
    unfolding exported
    by (simp add: importCsv_def importRow_def cell_def comma_def newline_def enumerate_eq_zip)
  have text_eq: "[0xFEFF, 0x59D3, 0x540D, 0x2C, 0x984C, 0x31, 0x2C, 0x5F97, 0x5206, 0x2C, 0x7B49, 0x7D1A,
         0x2C, 0x8A55, 0x8A9E, 0x0A, 0x73, 0x31, 0x2C, 0x22, 0x78, 0x22, 0x2C, 0x2C, 0x2C, 0x22, 0x22]
     = [0xFEFF, 0x59D3, 0x540D, 0x2C, 0x984C, 0x31, 0x2C, 0x5F97, 0x5206, 0x2C, 0x7B49, 0x7D1A,
        0x2C, 0x8A55, 0x8A9E, 0x0A] @ ascii ''s1,'' @ [0x22, 0x78, 0x22] @ ascii '',,,'' @ [0x22, (0x22 :: jschar)]"
    by (simp add: ascii_def)
  have orig: "map s_contents [demoStudent ''s1'' ''x''] = [[[0x78]]]"
    by (simp add: demoStudent_def ascii_def)
  show ?thesis
    unfolding names answers orig
    using exported text_eq by simp
qed

end
